theory Spec2Isabelle
  imports Main "HOL-Library.Sublist"
begin

section \<open>ESLint configuration documents\<close>

text \<open>
  The migration \<^verbatim>\<open>update-eslint-configs-to-use-nx-presets.ts\<close> rewrites a parsed
  \<^verbatim>\<open>.eslintrc.json\<close> (the target, \<^verbatim>\<open>json\<close>) against a baseline configuration
  (the reference, \<^verbatim>\<open>configBeingExtended\<close>). Both are JavaScript objects built from JSON
  data. A JSON number is modelled as an integer: ECMAScript versions are integers, and
  floating point is outside this development. An object is the list of its own
  properties in enumeration order; a property that is missing reads as \<open>None\<close>
  (JavaScript's \<^verbatim>\<open>undefined\<close>).
\<close>

datatype json =
    JNull
  | JBool bool
  | JNum int
  | JStr string
  | JArr "json list"
  | JObj "(string \<times> json) list"

type_synonym config = "(string \<times> json) list"

text \<open>
  The source throws a \<^verbatim>\<open>TypeError\<close> when it calls an array method on a value that has
  none. \<open>Unmodelled\<close> marks the inputs on which the source runs into parts of JavaScript
  that this development leaves out (index and \<^verbatim>\<open>length\<close> properties of strings and
  arrays used as keyed objects, \<^verbatim>\<open>String.prototype.includes\<close>, \<^verbatim>\<open>ToPrimitive\<close> on
  objects, numeric literals other than plain decimal digits, properties inherited from
  \<^verbatim>\<open>Object.prototype\<close>). No statement is made about the source on those inputs.
\<close>

datatype error = TypeError | Unmodelled

subsection \<open>Reading, writing and deleting a property\<close>

definition get_prop :: "config \<Rightarrow> string \<Rightarrow> json option" where
  "get_prop c k = map_of c k"

text \<open>\<^verbatim>\<open>obj[k] = v\<close>: an existing property keeps its place, a new one goes last.\<close>

primrec set_prop :: "string \<Rightarrow> json \<Rightarrow> config \<Rightarrow> config" where
  "set_prop k v [] = [(k, v)]"
| "set_prop k v (p # ps) = (if fst p = k then (k, v) # ps else p # set_prop k v ps)"

text \<open>\<^verbatim>\<open>delete obj[k]\<close>.\<close>

definition delete_prop :: "string \<Rightarrow> config \<Rightarrow> config" where
  "delete_prop k c = filter (\<lambda>p. fst p \<noteq> k) c"

subsection \<open>Truthiness and equality of JSON values\<close>

text \<open>The falsy JSON values are \<^verbatim>\<open>null\<close>, \<^verbatim>\<open>false\<close>, \<^verbatim>\<open>0\<close> and the empty string.\<close>

fun truthy :: "json \<Rightarrow> bool" where
  "truthy JNull = False"
| "truthy (JBool b) = b"
| "truthy (JNum n) = (n \<noteq> 0)"
| "truthy (JStr s) = (s \<noteq> [])"
| "truthy (JArr xs) = True"
| "truthy (JObj kvs) = True"

text \<open>
  \<^verbatim>\<open>a === b\<close> on two JSON values that are not the same object in memory: primitives
  compare by value, and an array or object is identical to nothing but itself. The
  target comes from a parsed file and the reference from a constant of the module, so the
  two never share an object. Without \<^verbatim>\<open>NaN\<close> (JSON has none) this is also the
  \<^verbatim>\<open>SameValueZero\<close> comparison of \<^verbatim>\<open>Array.prototype.includes\<close> and \<^verbatim>\<open>Set\<close>.
\<close>

fun strictEquals :: "json \<Rightarrow> json \<Rightarrow> bool" where
  "strictEquals JNull JNull = True"
| "strictEquals (JBool a) (JBool b) = (a = b)"
| "strictEquals (JNum a) (JNum b) = (a = b)"
| "strictEquals (JStr a) (JStr b) = (a = b)"
| "strictEquals _ _ = False"

text \<open>The same comparison on property reads, where either side may be \<^verbatim>\<open>undefined\<close>.\<close>

fun strictEqualsOpt :: "json option \<Rightarrow> json option \<Rightarrow> bool" where
  "strictEqualsOpt None None = True"
| "strictEqualsOpt (Some a) (Some b) = strictEquals a b"
| "strictEqualsOpt _ _ = False"

text \<open>
  \<^verbatim>\<open>assert.deepStrictEqual(a, b)\<close> of Node.js, as the boolean "it does not throw":
  same kind of value, arrays equal index by index, objects with the same own keys (in any
  order) and equal values under each key.
\<close>

fun deepStrictEqual :: "json \<Rightarrow> json \<Rightarrow> bool"
  and deepEqualItems :: "json list \<Rightarrow> json list \<Rightarrow> bool"
  and deepEqualEntries :: "(string \<times> json) list \<Rightarrow> (string \<times> json) list \<Rightarrow> bool" where
  "deepStrictEqual JNull JNull = True"
| "deepStrictEqual (JBool a) (JBool b) = (a = b)"
| "deepStrictEqual (JNum a) (JNum b) = (a = b)"
| "deepStrictEqual (JStr a) (JStr b) = (a = b)"
| "deepStrictEqual (JArr xs) (JArr ys) = deepEqualItems xs ys"
| "deepStrictEqual (JObj a) (JObj b) = (length a = length b \<and> deepEqualEntries a b)"
| "deepStrictEqual _ _ = False"
| "deepEqualItems [] [] = True"
| "deepEqualItems (x # xs) (y # ys) = (deepStrictEqual x y \<and> deepEqualItems xs ys)"
| "deepEqualItems _ _ = False"
| "deepEqualEntries [] b = True"
| "deepEqualEntries (p # a) b =
     ((case map_of b (fst p) of None \<Rightarrow> False | Some w \<Rightarrow> deepStrictEqual (snd p) w)
      \<and> deepEqualEntries a b)"

text \<open>The comparison against a property read of the reference, which may be missing.\<close>

fun deepStrictEqualOpt :: "json \<Rightarrow> json option \<Rightarrow> bool" where
  "deepStrictEqualOpt v None = False"
| "deepStrictEqualOpt v (Some w) = deepStrictEqual v w"

subsection \<open>Array and Set operations used by the list reducers\<close>

text \<open>\<^verbatim>\<open>ys.includes(x)\<close> on an array.\<close>

definition arrayIncludes :: "json list \<Rightarrow> json \<Rightarrow> bool" where
  "arrayIncludes ys x = list_ex (\<lambda>y. strictEquals y x) ys"

text \<open>
  \<^verbatim>\<open>xs.filter((extended) => !reference.includes(extended))\<close>, where \<open>reference\<close> is
  whatever value the reference holds in the field. The callback runs once for each element
  of \<open>xs\<close>, so nothing is read from the reference when \<open>xs\<close> is empty. A string
  has an \<^verbatim>\<open>includes\<close> method of its own (a substring test), which is left out; any other
  value that is not an array has none and the call throws.
\<close>

definition filterNotIncluded :: "json \<Rightarrow> json list \<Rightarrow> error + json list" where
  "filterNotIncluded reference xs =
     (if xs = [] then Inr []
      else (case reference of
              JArr ys \<Rightarrow> Inr (filter (\<lambda>x. \<not> arrayIncludes ys x) xs)
            | JStr s \<Rightarrow> Inl Unmodelled
            | _ \<Rightarrow> Inl TypeError))"

text \<open>
  \<^verbatim>\<open>Array.from(new Set(xs))\<close>: the elements are added one by one, an element is
  appended unless the set holds it already, and the set is read back in insertion order.
\<close>

definition setAdd :: "json list \<Rightarrow> json \<Rightarrow> json list" where
  "setAdd seen x = (if arrayIncludes seen x then seen else seen @ [x])"

definition arrayFromSet :: "json list \<Rightarrow> json list" where
  "arrayFromSet xs = foldl setAdd [] xs"

text \<open>\<^verbatim>\<open>obj[k] ||= d\<close>: the object after the assignment, and the value the property then has.\<close>

definition orAssign :: "string \<Rightarrow> json \<Rightarrow> config \<Rightarrow> config" where
  "orAssign k d c =
     (case get_prop c k of
        Some v \<Rightarrow> if truthy v then c else set_prop k d c
      | None \<Rightarrow> set_prop k d c)"

definition orValue :: "string \<Rightarrow> json \<Rightarrow> config \<Rightarrow> json" where
  "orValue k d c =
     (case get_prop c k of
        Some v \<Rightarrow> if truthy v then v else d
      | None \<Rightarrow> d)"

section \<open>The reducers\<close>

text \<open>
  Every reducer mutates both of its arguments in place. The model passes the two
  documents in and returns them updated: the first component is \<^verbatim>\<open>json\<close>, the second
  is \<^verbatim>\<open>configBeingExtended\<close> as the call leaves it.
\<close>

fun ensureStringArray :: "json option \<Rightarrow> json" where
  "ensureStringArray (Some (JStr s)) = JArr [JStr s]"
| "ensureStringArray (Some v) = (if truthy v then v else JArr [])"
| "ensureStringArray None = JArr []"

text \<open>
  The last two statements shared by the list reducers: de-duplicate through a
  \<^verbatim>\<open>Set\<close>, then delete the field when asked to and nothing is left.
\<close>

definition storeList :: "string \<Rightarrow> bool \<Rightarrow> json list \<Rightarrow> config \<Rightarrow> config" where
  "storeList k deleteIfUltimatelyEmpty ys c =
     (let zs = arrayFromSet ys
      in if deleteIfUltimatelyEmpty \<and> zs = [] then delete_prop k c
         else set_prop k (JArr zs) c)"

definition updateExtendsAndRemoveDuplication ::
  "config \<Rightarrow> config \<Rightarrow> bool \<Rightarrow> string \<Rightarrow> error + config \<times> config" where
  "updateExtendsAndRemoveDuplication json configBeingExtended deleteIfUltimatelyEmpty extendsToAdd =
     (let own = ensureStringArray (get_prop json ''extends'');
          theirs = ensureStringArray (get_prop configBeingExtended ''extends'');
          json1 = set_prop ''extends'' own json;
          reference1 = set_prop ''extends'' theirs configBeingExtended
      in case own of
           JArr xs \<Rightarrow>
             (case filterNotIncluded theirs (JStr extendsToAdd # xs) of
                Inl e \<Rightarrow> Inl e
              | Inr ys \<Rightarrow>
                  Inr (storeList ''extends'' deleteIfUltimatelyEmpty ys json1, reference1))
         | _ \<Rightarrow> Inl TypeError)"

text \<open>
  \<open>ensurePlugin\<close> is an optional parameter; the source tests it for truthiness, which
  for a string means that it is not empty, before
  \<^verbatim>\<open>json.plugins.unshift(ensurePlugin)\<close>. When \<^verbatim>\<open>json.plugins\<close> is a truthy value that
  is not an array, one of \<^verbatim>\<open>includes\<close>, \<^verbatim>\<open>unshift\<close> and \<^verbatim>\<open>filter\<close> is missing on it
  and the call throws.
\<close>

definition unshiftIfMissing :: "string option \<Rightarrow> json list \<Rightarrow> json list" where
  "unshiftIfMissing ensurePlugin xs =
     (case ensurePlugin of
        Some p \<Rightarrow> if p \<noteq> [] \<and> \<not> arrayIncludes xs (JStr p) then JStr p # xs else xs
      | None \<Rightarrow> xs)"

definition updatePluginsAndRemoveDuplication ::
  "config \<Rightarrow> config \<Rightarrow> bool \<Rightarrow> string option \<Rightarrow> error + config \<times> config" where
  "updatePluginsAndRemoveDuplication json configBeingExtended deleteIfUltimatelyEmpty ensurePlugin =
     (let own = orValue ''plugins'' (JArr []) json;
          theirs = orValue ''plugins'' (JArr []) configBeingExtended;
          json1 = orAssign ''plugins'' (JArr []) json;
          reference1 = orAssign ''plugins'' (JArr []) configBeingExtended
      in case own of
           JArr xs \<Rightarrow>
             (case filterNotIncluded theirs (unshiftIfMissing ensurePlugin xs) of
                Inl e \<Rightarrow> Inl e
              | Inr ys \<Rightarrow>
                  Inr (storeList ''plugins'' deleteIfUltimatelyEmpty ys json1, reference1))
         | _ \<Rightarrow> Inl TypeError)"

subsection \<open>Numeric coercion\<close>

text \<open>
  \<^verbatim>\<open>Number(v)\<close>. The result is \<open>NaN\<close> or an integer. On strings, the empty string
  reads as 0 and a string of decimal digits as its value (up to \<open>2 ^ 53\<close>, beyond which
  doubles round); a string that starts with a letter other than \<^verbatim>\<open>I\<close> is no numeric
  literal and reads as \<open>NaN\<close>. Signs, white space, fractions, exponents, radix prefixes
  and \<^verbatim>\<open>Infinity\<close> are left out, and so are arrays and objects, which go through
  \<^verbatim>\<open>ToPrimitive\<close>.
\<close>

datatype jsnum = NaN | Fin int

definition digitValue :: "char \<Rightarrow> int option" where
  "digitValue c = map_of (zip ''0123456789'' [0, 1, 2, 3, 4, 5, 6, 7, 8, 9]) c"

fun decimalValue :: "int \<Rightarrow> string \<Rightarrow> int option" where
  "decimalValue acc [] = Some acc"
| "decimalValue acc (c # cs) =
     (case digitValue c of None \<Rightarrow> None | Some d \<Rightarrow> decimalValue (10 * acc + d) cs)"

definition startsNoNumericLiteral :: "string \<Rightarrow> bool" where
  "startsNoNumericLiteral s =
     (case s of [] \<Rightarrow> False
      | c # cs \<Rightarrow> c \<in> set ''abcdefghijklmnopqrstuvwxyzABCDEFGHJKLMNOPQRSTUVWXYZ'')"

definition StringToNumber :: "string \<Rightarrow> error + jsnum" where
  "StringToNumber s =
     (if s = [] then Inr (Fin 0)
      else (case decimalValue 0 s of
              Some n \<Rightarrow> if n \<le> 2 ^ 53 then Inr (Fin n) else Inl Unmodelled
            | None \<Rightarrow> if startsNoNumericLiteral s then Inr NaN else Inl Unmodelled))"

fun toNumber :: "json option \<Rightarrow> error + jsnum" where
  "toNumber None = Inr NaN"
| "toNumber (Some JNull) = Inr (Fin 0)"
| "toNumber (Some (JBool b)) = Inr (Fin (if b then 1 else 0))"
| "toNumber (Some (JNum n)) = Inr (Fin n)"
| "toNumber (Some (JStr s)) = StringToNumber s"
| "toNumber (Some (JArr xs)) = Inl Unmodelled"
| "toNumber (Some (JObj kvs)) = Inl Unmodelled"

text \<open>\<^verbatim>\<open>a === b\<close> on numbers: \<open>NaN\<close> is equal to nothing, itself included.\<close>

fun numEquals :: "jsnum \<Rightarrow> jsnum \<Rightarrow> bool" where
  "numEquals (Fin a) (Fin b) = (a = b)"
| "numEquals _ _ = False"

subsection \<open>The keyed-object reducers\<close>

text \<open>
  The condition of the \<^verbatim>\<open>if\<close> that guards \<^verbatim>\<open>delete json.parserOptions.ecmaVersion\<close>.
  The source does not coerce the reference's value when the first comparison holds; the
  model asks for both coercions to be modelled in every case, which only makes it decline
  more inputs.
\<close>

definition ecmaVersionIsRedundant :: "json option \<Rightarrow> json option \<Rightarrow> error + bool" where
  "ecmaVersionIsRedundant own theirs =
     (case toNumber own of
        Inl e \<Rightarrow> Inl e
      | Inr n \<Rightarrow>
          (case toNumber theirs of
             Inl e \<Rightarrow> Inl e
           | Inr m \<Rightarrow> Inr (numEquals n (Fin 2018) \<or> numEquals n m)))"

text \<open>
  The \<^verbatim>\<open>for\<close> loops over \<^verbatim>\<open>Object.entries\<close>: the entries are a snapshot taken before
  the loop, the deletions act on the object itself. A key that the reference lacks reads
  as \<^verbatim>\<open>undefined\<close> there, or as a method inherited from \<^verbatim>\<open>Object.prototype\<close>; neither is
  equal to a JSON value.
\<close>

fun removeStrictlyEqual ::
  "(string \<times> json) list \<Rightarrow> (string \<times> json) list \<Rightarrow> (string \<times> json) list \<Rightarrow> (string \<times> json) list" where
  "removeStrictlyEqual [] theirs obj = obj"
| "removeStrictlyEqual (p # entries) theirs obj =
     removeStrictlyEqual entries theirs
       (if strictEqualsOpt (Some (snd p)) (map_of theirs (fst p))
        then delete_prop (fst p) obj else obj)"

fun removeDeeplyEqual ::
  "(string \<times> json) list \<Rightarrow> (string \<times> json) list \<Rightarrow> (string \<times> json) list \<Rightarrow> (string \<times> json) list" where
  "removeDeeplyEqual [] theirs obj = obj"
| "removeDeeplyEqual (p # entries) theirs obj =
     removeDeeplyEqual entries theirs
       (if deepStrictEqualOpt (snd p) (map_of theirs (fst p))
        then delete_prop (fst p) obj else obj)"

text \<open>
  A truthy value in the place of \<^verbatim>\<open>parserOptions\<close>, \<^verbatim>\<open>rules\<close>, \<^verbatim>\<open>env\<close> or
  \<^verbatim>\<open>settings\<close> that is not an object is outside the model.
\<close>

definition updateParserOptionsAndRemoveDuplication ::
  "config \<Rightarrow> config \<Rightarrow> error + config \<times> config" where
  "updateParserOptionsAndRemoveDuplication json configBeingExtended =
     (let json1 = orAssign ''parserOptions'' (JObj []) json;
          reference1 = orAssign ''parserOptions'' (JObj []) configBeingExtended
      in case (orValue ''parserOptions'' (JObj []) json,
               orValue ''parserOptions'' (JObj []) configBeingExtended) of
           (JObj own, JObj theirs) \<Rightarrow>
             (case ecmaVersionIsRedundant (map_of own ''ecmaVersion'')
                     (map_of theirs ''ecmaVersion'') of
                Inl e \<Rightarrow> Inl e
              | Inr redundant \<Rightarrow>
                  (let own1 = (if redundant then delete_prop ''ecmaVersion'' own else own);
                       own2 = removeStrictlyEqual own1 theirs own1
                   in Inr (set_prop ''parserOptions'' (JObj own2) json1, reference1)))
         | _ \<Rightarrow> Inl Unmodelled)"

text \<open>
  \<open>objPropName\<close> is any string in the source. A name that every object inherits from
  \<^verbatim>\<open>Object.prototype\<close> reads as truthy even when the document does not have it, and a
  name made of digits is enumerated before the other keys; both are outside the model.
\<close>

definition modelledPropertyName :: "string \<Rightarrow> bool" where
  "modelledPropertyName k =
     (k \<notin> set [''__proto__'', ''constructor'', ''hasOwnProperty'', ''isPrototypeOf'',
                 ''propertyIsEnumerable'', ''toLocaleString'', ''toString'', ''valueOf'',
                 ''__defineGetter__'', ''__defineSetter__'', ''__lookupGetter__'',
                 ''__lookupSetter__'']
      \<and> (k = [] \<or> decimalValue 0 k = None))"

definition updateObjPropAndRemoveDuplication ::
  "config \<Rightarrow> config \<Rightarrow> string \<Rightarrow> bool \<Rightarrow> error + config \<times> config" where
  "updateObjPropAndRemoveDuplication json configBeingExtended objPropName deleteIfUltimatelyEmpty =
     (if \<not> modelledPropertyName objPropName then Inl Unmodelled
      else
        let json1 = orAssign objPropName (JObj []) json;
            reference1 = orAssign objPropName (JObj []) configBeingExtended
        in case (orValue objPropName (JObj []) json,
                 orValue objPropName (JObj []) configBeingExtended) of
             (JObj own, JObj theirs) \<Rightarrow>
               (let own1 = removeDeeplyEqual own theirs own
                in Inr (if deleteIfUltimatelyEmpty \<and> own1 = []
                        then delete_prop objPropName json1
                        else set_prop objPropName (JObj own1) json1,
                        reference1))
           | _ \<Rightarrow> Inl Unmodelled)"

subsection \<open>The overrides reducer\<close>

text \<open>
  The callback handed to \<^verbatim>\<open>json.overrides.filter\<close>: it returns \<^verbatim>\<open>false\<close> from inside
  the loop when \<^verbatim>\<open>assert.deepStrictEqual\<close> does not throw, and \<^verbatim>\<open>false\<close> after the loop.
\<close>

fun overridesFilterFn :: "json \<Rightarrow> json list \<Rightarrow> bool" where
  "overridesFilterFn ov [] = False"
| "overridesFilterFn ov (extendedOverride # rest) =
     (if deepStrictEqual ov extendedOverride then False else overridesFilterFn ov rest)"

text \<open>\<^verbatim>\<open>Array.isArray(v) && v.length\<close>.\<close>

fun isNonEmptyArray :: "json option \<Rightarrow> bool" where
  "isNonEmptyArray (Some (JArr (x # xs))) = True"
| "isNonEmptyArray _ = False"

fun arrayItems :: "json option \<Rightarrow> json list" where
  "arrayItems (Some (JArr xs)) = xs"
| "arrayItems _ = []"

definition updateOverridesAndRemoveDuplication ::
  "config \<Rightarrow> config \<Rightarrow> bool \<Rightarrow> error + config \<times> config" where
  "updateOverridesAndRemoveDuplication json configBeingExtended deleteIfUltimatelyEmpty =
     (if \<not> isNonEmptyArray (get_prop json ''overrides'') then Inr (json, configBeingExtended)
      else if \<not> isNonEmptyArray (get_prop configBeingExtended ''overrides'')
      then Inr (json, configBeingExtended)
      else
        let kept = filter (\<lambda>ov. overridesFilterFn ov
                                   (arrayItems (get_prop configBeingExtended ''overrides'')))
                     (arrayItems (get_prop json ''overrides''))
        in Inr (if deleteIfUltimatelyEmpty \<and> kept = []
                then delete_prop ''overrides'' json
                else set_prop ''overrides'' (JArr kept) json,
                configBeingExtended))"

section \<open>The root configuration\<close>

text \<open>
  The function that \<^verbatim>\<open>updateRootESLintConfig\<close> hands to \<^verbatim>\<open>updateJsonInTree\<close>. The
  reference is the module constant \<^verbatim>\<open>currentTypescriptConfig\<close>, which the reducers
  mutate; it is passed in as it stands before the call and returned as it stands after.
\<close>

definition currentTypescriptConfig :: config where
  "currentTypescriptConfig =
     [(''parser'', JStr ''@typescript-eslint/parser''),
      (''parserOptions'',
         JObj [(''ecmaVersion'', JNum 2020), (''sourceType'', JStr ''module'')]),
      (''plugins'', JArr [JStr ''@typescript-eslint'']),
      (''extends'',
         JArr [JStr ''eslint:recommended'',
               JStr ''plugin:@typescript-eslint/eslint-recommended'',
               JStr ''plugin:@typescript-eslint/recommended'',
               JStr ''prettier'',
               JStr ''prettier/@typescript-eslint'']),
      (''rules'',
         JObj [(''@typescript-eslint/explicit-member-accessibility'', JStr ''off''),
               (''@typescript-eslint/explicit-module-boundary-types'', JStr ''off''),
               (''@typescript-eslint/explicit-function-return-type'', JStr ''off''),
               (''@typescript-eslint/no-parameter-properties'', JStr ''off'')]),
      (''overrides'',
         JArr [JObj [(''files'', JArr [JStr ''*.tsx'']),
                     (''rules'', JObj [(''@typescript-eslint/no-unused-vars'', JStr ''off'')])]])]"

definition deleteParserIfSame :: "config \<Rightarrow> config \<Rightarrow> config" where
  "deleteParserIfSame json reference =
     (if strictEqualsOpt (get_prop json ''parser'') (get_prop reference ''parser'')
      then delete_prop ''parser'' json else json)"

text \<open>Sequencing: an exception raised by one call skips the calls after it.\<close>

definition andThen :: "error + 'a \<Rightarrow> ('a \<Rightarrow> error + 'b) \<Rightarrow> error + 'b" where
  "andThen r f = (case r of Inl e \<Rightarrow> Inl e | Inr x \<Rightarrow> f x)"

definition updateRootESLintConfig :: "config \<Rightarrow> config \<Rightarrow> error + config \<times> config" where
  "updateRootESLintConfig json reference =
     andThen (updateExtendsAndRemoveDuplication json reference True ''plugin:@nrwl/nx/typescript'')
       (\<lambda>(json1, reference1).
     andThen (updatePluginsAndRemoveDuplication json1 reference1 True (Some ''@nrwl/nx''))
       (\<lambda>(json2, reference2).
     andThen (updateParserOptionsAndRemoveDuplication json2 reference2)
       (\<lambda>(json3, reference3).
     andThen (updateOverridesAndRemoveDuplication json3 reference3 True)
       (\<lambda>(json4, reference4).
     andThen (updateObjPropAndRemoveDuplication json4 reference4 ''rules'' False)
       (\<lambda>(json5, reference5).
          Inr (deleteParserIfSame json5 reference5, reference5))))))"

section \<open>The configuration of a React project\<close>

text \<open>
  The function that \<^verbatim>\<open>updateReactESLintConfigs\<close> hands to \<^verbatim>\<open>updateJsonInTree\<close> for
  the \<^verbatim>\<open>.eslintrc.json\<close> of one project. The reference is the module constant
  \<^verbatim>\<open>currentReactConfig\<close>, passed in and returned like the reference of the root update;
  its value (some 150 rules) is not needed for what follows and is not spelled out.

  \<^verbatim>\<open>json.plugins?.includes(name)\<close> is \<^verbatim>\<open>undefined\<close> when \<^verbatim>\<open>json.plugins\<close> is missing
  or \<^verbatim>\<open>null\<close>, the array test on an array, a substring test on a string (left out) and
  a \<^verbatim>\<open>TypeError\<close> on anything else.
\<close>

fun hasReactPlugin :: "json option \<Rightarrow> error + bool" where
  "hasReactPlugin None = Inr False"
| "hasReactPlugin (Some JNull) = Inr False"
| "hasReactPlugin (Some (JArr xs)) =
     Inr (arrayIncludes xs (JStr ''react'') \<or> arrayIncludes xs (JStr ''react-hooks'')
          \<or> arrayIncludes xs (JStr ''jsx-a11y''))"
| "hasReactPlugin (Some (JStr s)) = Inl Unmodelled"
| "hasReactPlugin (Some v) = Inl TypeError"

definition updateReactESLintConfig :: "config \<Rightarrow> config \<Rightarrow> error + config \<times> config" where
  "updateReactESLintConfig json reference =
     andThen (hasReactPlugin (get_prop json ''plugins''))
       (\<lambda>react.
     if react then
     andThen (updateExtendsAndRemoveDuplication json reference True ''plugin:@nrwl/nx/react'')
       (\<lambda>(json1, reference1).
     andThen (updatePluginsAndRemoveDuplication json1 reference1 True None)
       (\<lambda>(json2, reference2).
     andThen (updateObjPropAndRemoveDuplication json2 reference2 ''rules'' False)
       (\<lambda>(json3, reference3).
     andThen (updateObjPropAndRemoveDuplication json3 reference3 ''env'' True)
       (\<lambda>(json4, reference4).
          updateObjPropAndRemoveDuplication json4 reference4 ''settings'' True))))
     else Inr (json, reference))"

section \<open>Vocabulary of the statements\<close>

text \<open>The declared type of \<^verbatim>\<open>extends\<close> and \<^verbatim>\<open>plugins\<close> is a list of strings.\<close>

fun isString :: "json \<Rightarrow> bool" where
  "isString (JStr s) = True"
| "isString _ = False"

text \<open>
  \<open>output\<close> lists entries of \<open>input\<close> in the order in which \<open>input\<close> first shows
  them: whenever \<open>x\<close> stands before \<open>y\<close> in \<open>output\<close>, \<open>y\<close> does not occur in
  \<open>input\<close> before the first \<open>x\<close>.
\<close>

definition keepsFirstSeenOrder :: "json list \<Rightarrow> json list \<Rightarrow> bool" where
  "keepsFirstSeenOrder input output =
     (set output \<subseteq> set input \<and>
      sorted_wrt (\<lambda>x y. y \<notin> set (takeWhile (\<lambda>z. z \<noteq> x) input)) output)"

text \<open>\<^verbatim>\<open>doc.parserOptions.ecmaVersion\<close> of a document whose \<^verbatim>\<open>parserOptions\<close> is an object.\<close>

definition ecmaVersionOf :: "config \<Rightarrow> json option" where
  "ecmaVersionOf c =
     (case get_prop c ''parserOptions'' of
        Some (JObj opts) \<Rightarrow> map_of opts ''ecmaVersion''
      | _ \<Rightarrow> None)"

text \<open>
  The values on which \<^verbatim>\<open>Number\<close> is modelled: a missing value, \<^verbatim>\<open>null\<close>, a boolean,
  an integer, and a string that is empty, or made of decimal digits with a value of at
  most \<open>2 ^ 53\<close>, or that starts with a letter other than \<^verbatim>\<open>I\<close>.
\<close>

fun coercionModelled :: "json option \<Rightarrow> bool" where
  "coercionModelled None = True"
| "coercionModelled (Some JNull) = True"
| "coercionModelled (Some (JBool b)) = True"
| "coercionModelled (Some (JNum n)) = True"
| "coercionModelled (Some (JStr s)) =
     (s = [] \<or> (case decimalValue 0 s of
                   Some n \<Rightarrow> n \<le> 2 ^ 53
                 | None \<Rightarrow> startsNoNumericLiteral s))"
| "coercionModelled (Some (JArr xs)) = False"
| "coercionModelled (Some (JObj kvs)) = False"

text \<open>
  What a reducer may do to the reference: \<open>reference'\<close> holds \<open>v\<close> in field \<open>f\<close>,
  agrees with \<open>reference\<close> on every other field, and is \<open>reference\<close> itself when that
  already held \<open>v\<close> there.
\<close>

definition onlyNormalizes :: "string \<Rightarrow> json \<Rightarrow> config \<Rightarrow> config \<Rightarrow> bool" where
  "onlyNormalizes f v reference reference' =
     (get_prop reference' f = Some v
      \<and> (\<forall>k. k \<noteq> f \<longrightarrow> get_prop reference' k = get_prop reference k)
      \<and> (get_prop reference f = Some v \<longrightarrow> reference' = reference))"

section \<open>Facts about properties\<close>

lemma get_set_prop:
  "get_prop (set_prop k v c) k' = (if k' = k then Some v else get_prop c k')"
  by (induction c) (auto simp: get_prop_def)

lemma get_delete_prop:
  "get_prop (delete_prop k c) k' = (if k' = k then None else get_prop c k')"
  by (induction c) (auto simp: get_prop_def delete_prop_def)

lemma set_prop_twice: "set_prop k v (set_prop k w c) = set_prop k v c"
  by (induction c) auto

lemma delete_set_prop: "delete_prop k (set_prop k v c) = delete_prop k c"
  by (induction c) (auto simp: delete_prop_def)

lemma set_prop_same: "get_prop c k = Some v \<Longrightarrow> set_prop k v c = c"
  by (induction c) (auto simp: get_prop_def split: if_splits)

lemma delete_prop_absent: "get_prop c k = None \<Longrightarrow> delete_prop k c = c"
  by (induction c) (auto simp: get_prop_def delete_prop_def split: if_splits)

lemma set_prop_absent: "get_prop c k = None \<Longrightarrow> set_prop k v c = c @ [(k, v)]"
  by (induction c) (auto simp: get_prop_def split: if_splits)

section \<open>Facts about \<^verbatim>\<open>includes\<close> and \<^verbatim>\<open>Set\<close>\<close>

lemma strictEquals_eq: "strictEquals a b \<Longrightarrow> a = b"
  by (cases a; cases b) auto

lemma strictEquals_isString: "isString x \<Longrightarrow> strictEquals y x = (y = x)"
  by (cases x; cases y) auto

lemma arrayIncludes_mem: "arrayIncludes ys x \<Longrightarrow> x \<in> set ys"
  by (auto simp: arrayIncludes_def list_ex_iff dest: strictEquals_eq)

lemma arrayIncludes_isString: "isString x \<Longrightarrow> arrayIncludes ys x = (x \<in> set ys)"
  by (auto simp: arrayIncludes_def list_ex_iff strictEquals_isString)

lemma setAdd_held: "arrayIncludes acc y \<Longrightarrow> setAdd acc y = acc"
  by (simp add: setAdd_def)

lemma setAdd_new: "\<not> arrayIncludes acc y \<Longrightarrow> setAdd acc y = acc @ [y]"
  by (simp add: setAdd_def)

lemma foldl_setAdd_prefix: "\<exists>ws. foldl setAdd acc ys = acc @ ws"
proof (induction ys arbitrary: acc)
  case Nil
  show ?case by simp
next
  case (Cons y ys)
  obtain ws where "foldl setAdd (setAdd acc y) ys = setAdd acc y @ ws"
    using Cons.IH by blast
  then show ?case by (cases "arrayIncludes acc y") (auto simp: setAdd_held setAdd_new)
qed

lemma set_foldl_setAdd: "set (foldl setAdd acc ys) = set acc \<union> set ys"
proof (induction ys arbitrary: acc)
  case Nil
  show ?case by simp
next
  case (Cons y ys)
  show ?case
    by (cases "arrayIncludes acc y")
       (auto simp: Cons.IH setAdd_held setAdd_new dest: arrayIncludes_mem)
qed

lemma set_arrayFromSet: "set (arrayFromSet ys) = set ys"
  by (simp add: arrayFromSet_def set_foldl_setAdd)

lemma foldl_setAdd_settled:
  "sorted_wrt (\<lambda>a b. \<not> strictEquals a b) (acc @ zs) \<Longrightarrow> foldl setAdd acc zs = acc @ zs"
proof (induction zs arbitrary: acc)
  case Nil
  show ?case by simp
next
  case (Cons z zs)
  from Cons.prems have "\<not> arrayIncludes acc z"
    by (auto simp: arrayIncludes_def list_ex_iff sorted_wrt_append)
  then have "setAdd acc z = acc @ [z]" by (rule setAdd_new)
  moreover have "foldl setAdd (acc @ [z]) zs = (acc @ [z]) @ zs"
    using Cons.prems by (intro Cons.IH) simp
  ultimately show ?case by simp
qed

lemma settled_foldl_setAdd:
  "sorted_wrt (\<lambda>a b. \<not> strictEquals a b) acc \<Longrightarrow>
   sorted_wrt (\<lambda>a b. \<not> strictEquals a b) (foldl setAdd acc ys)"
proof (induction ys arbitrary: acc)
  case Nil
  then show ?case by simp
next
  case (Cons y ys)
  have "sorted_wrt (\<lambda>a b. \<not> strictEquals a b) (setAdd acc y)"
    using Cons.prems
    by (cases "arrayIncludes acc y")
       (auto simp: setAdd_held setAdd_new arrayIncludes_def list_ex_iff sorted_wrt_append)
  then show ?case using Cons.IH by simp
qed

lemma settled_arrayFromSet: "sorted_wrt (\<lambda>a b. \<not> strictEquals a b) (arrayFromSet ys)"
  by (simp add: arrayFromSet_def settled_foldl_setAdd)

lemma arrayFromSet_settled:
  "sorted_wrt (\<lambda>a b. \<not> strictEquals a b) zs \<Longrightarrow> arrayFromSet zs = zs"
  using foldl_setAdd_settled [of "[]" zs] by (simp add: arrayFromSet_def)

lemma arrayFromSet_idem: "arrayFromSet (arrayFromSet ys) = arrayFromSet ys"
  by (simp add: arrayFromSet_settled settled_arrayFromSet)

lemma filter_arrayFromSet:
  "list_all P ys \<Longrightarrow> filter P (arrayFromSet ys) = arrayFromSet ys"
  by (simp add: filter_id_conv list_all_iff set_arrayFromSet)

lemma arrayFromSet_Cons_string:
  "\<exists>ws. arrayFromSet (JStr s # ys) = JStr s # ws"
  using foldl_setAdd_prefix [of "[JStr s]" ys]
  by (simp add: arrayFromSet_def setAdd_new arrayIncludes_def)

lemma arrayFromSet_repeat_head:
  assumes "zs = arrayFromSet (JStr s # ys)"
  shows "arrayFromSet (JStr s # zs) = zs"
proof -
  obtain ws where ws: "zs = JStr s # ws"
    using assms arrayFromSet_Cons_string by blast
  have settled: "sorted_wrt (\<lambda>a b. \<not> strictEquals a b) ([JStr s] @ ws)"
    using settled_arrayFromSet [of "JStr s # ys"] assms ws by simp
  have "arrayFromSet (JStr s # zs) = foldl setAdd [JStr s] (JStr s # ws)"
    by (simp add: arrayFromSet_def setAdd_new arrayIncludes_def ws)
  also have "\<dots> = foldl setAdd [JStr s] ws"
    by (simp add: setAdd_held arrayIncludes_def)
  also have "\<dots> = [JStr s] @ ws"
    using settled by (rule foldl_setAdd_settled)
  finally show ?thesis by (simp add: ws)
qed

lemma distinct_settled_strings:
  "sorted_wrt (\<lambda>a b. \<not> strictEquals a b) zs \<Longrightarrow> list_all isString zs \<Longrightarrow> distinct zs"
  by (induction zs) (auto simp: strictEquals_isString list_all_iff)

lemma distinct_arrayFromSet: "list_all isString ys \<Longrightarrow> distinct (arrayFromSet ys)"
  by (rule distinct_settled_strings)
     (simp_all add: settled_arrayFromSet list_all_iff set_arrayFromSet)

lemma firstSeen_foldl_setAdd:
  "list_all isString rest \<Longrightarrow> set acc = set pre \<Longrightarrow>
   sorted_wrt (\<lambda>x y. y \<notin> set (takeWhile (\<lambda>z. z \<noteq> x) (pre @ rest))) acc \<Longrightarrow>
   sorted_wrt (\<lambda>x y. y \<notin> set (takeWhile (\<lambda>z. z \<noteq> x) (pre @ rest))) (foldl setAdd acc rest)"
proof (induction rest arbitrary: acc pre)
  case Nil
  then show ?case by simp
next
  case (Cons y rest)
  let ?before = "\<lambda>x y'. y' \<notin> set (takeWhile (\<lambda>z. z \<noteq> x) ((pre @ [y]) @ rest))"
  have strings: "list_all isString rest" and y: "isString y"
    using Cons.prems(1) by simp_all
  have order: "sorted_wrt ?before acc" using Cons.prems(3) by simp
  show ?case
  proof (cases "arrayIncludes acc y")
    case True
    then have "y \<in> set pre" using Cons.prems(2) by (auto dest: arrayIncludes_mem)
    then have "set acc = set (pre @ [y])" using Cons.prems(2) by auto
    from Cons.IH [OF strings this order] show ?thesis by (simp add: setAdd_held True)
  next
    case False
    then have fresh: "y \<notin> set pre"
      using Cons.prems(2) by (simp add: arrayIncludes_isString y)
    have same: "set (acc @ [y]) = set (pre @ [y])" using Cons.prems(2) by simp
    have "?before a y" if "a \<in> set acc" for a
    proof -
      from that have "a \<in> set pre" using Cons.prems(2) by simp
      then have "takeWhile (\<lambda>z. z \<noteq> a) ((pre @ [y]) @ rest) = takeWhile (\<lambda>z. z \<noteq> a) pre"
        by simp
      moreover have "set (takeWhile (\<lambda>z. z \<noteq> a) pre) \<subseteq> set pre"
        by (auto dest: set_takeWhileD)
      ultimately show ?thesis using fresh by auto
    qed
    then have "sorted_wrt ?before (acc @ [y])"
      using order by (simp add: sorted_wrt_append)
    from Cons.IH [OF strings same this] show ?thesis by (simp add: setAdd_new False)
  qed
qed

lemma firstSeen_arrayFromSet:
  "list_all isString ys \<Longrightarrow> keepsFirstSeenOrder ys (arrayFromSet ys)"
proof -
  assume "list_all isString ys"
  from firstSeen_foldl_setAdd [where pre = "[]" and acc = "[]", OF this]
  show ?thesis
    by (simp add: keepsFirstSeenOrder_def arrayFromSet_def set_foldl_setAdd)
qed

lemma takeWhile_filter_upto:
  assumes "P x"
  shows "takeWhile (\<lambda>z. z \<noteq> x) (filter P xs) = filter P (takeWhile (\<lambda>z. z \<noteq> x) xs)"
proof (induct xs)
  case Nil
  show ?case by simp
next
  case (Cons a xs)
  show ?case
  proof (cases "a = x")
    case True
    then show ?thesis using assms by simp
  next
    case False
    then show ?thesis using Cons by (cases "P a") simp_all
  qed
qed

lemma firstSeen_filter:
  assumes "keepsFirstSeenOrder (filter P xs) zs"
  shows "keepsFirstSeenOrder xs zs"
proof -
  have sub: "set zs \<subseteq> set (filter P xs)"
    and ord: "sorted_wrt (\<lambda>x y. y \<notin> set (takeWhile (\<lambda>z. z \<noteq> x) (filter P xs))) zs"
    using assms by (simp_all add: keepsFirstSeenOrder_def)
  have "sorted_wrt (\<lambda>x y. y \<notin> set (takeWhile (\<lambda>z. z \<noteq> x) xs)) zs"
  proof (rule sorted_wrt_mono_rel [OF _ ord])
    fix x y
    assume x: "x \<in> set zs" and y: "y \<in> set zs"
      and *: "y \<notin> set (takeWhile (\<lambda>z. z \<noteq> x) (filter P xs))"
    have "P x" "P y" using sub x y by auto
    then show "y \<notin> set (takeWhile (\<lambda>z. z \<noteq> x) xs)"
      using * by (simp add: takeWhile_filter_upto)
  qed
  then show ?thesis using sub by (auto simp: keepsFirstSeenOrder_def)
qed


section \<open>Facts about the list reducers\<close>

lemma storeList_set_prop: "storeList k d ys (set_prop k v c) = storeList k d ys c"
  by (simp add: storeList_def Let_def delete_set_prop set_prop_twice)

lemma get_storeList:
  "get_prop (storeList k d ys c) k' =
     (if k' = k then (if d \<and> arrayFromSet ys = [] then None else Some (JArr (arrayFromSet ys)))
      else get_prop c k')"
  by (simp add: storeList_def Let_def get_set_prop get_delete_prop)

lemma arrayItems_storeList: "arrayItems (get_prop (storeList k d ys c) k) = arrayFromSet ys"
  by (simp add: get_storeList)

lemma storeList_same:
  "get_prop c k = (if d \<and> arrayFromSet ys = [] then None else Some (JArr (arrayFromSet ys)))
   \<Longrightarrow> storeList k d ys c = c"
  by (simp add: storeList_def Let_def delete_prop_absent set_prop_same split: if_splits)

lemma truthy_orValue: "truthy d \<Longrightarrow> truthy (orValue k d c)"
  by (simp add: orValue_def split: option.splits)

lemma get_orAssign:
  "get_prop (orAssign k d c) k' = (if k' = k then Some (orValue k d c) else get_prop c k')"
  by (auto simp: orAssign_def orValue_def get_set_prop split: option.splits)

lemma orValue_truthy: "get_prop c k = Some v \<Longrightarrow> truthy v \<Longrightarrow> orValue k d c = v"
  by (simp add: orValue_def)

lemma orAssign_truthy: "get_prop c k = Some v \<Longrightarrow> truthy v \<Longrightarrow> orAssign k d c = c"
  by (simp add: orAssign_def)

lemma orAssign_absent: "get_prop c k = None \<Longrightarrow> orAssign k d c = c @ [(k, d)]"
  by (simp add: orAssign_def set_prop_absent)

lemma orValue_absent: "get_prop c k = None \<Longrightarrow> orValue k d c = d"
  by (simp add: orValue_def)

lemma storeList_orAssign: "storeList k d ys (orAssign k v c) = storeList k d ys c"
  by (simp add: orAssign_def storeList_set_prop split: option.splits)

lemma ensureStringArray_truthy: "truthy (ensureStringArray v)"
  by (cases v rule: ensureStringArray.cases) auto

lemma filterNotIncluded_JArr:
  "filterNotIncluded (JArr ys) xs = Inr (filter (\<lambda>x. \<not> arrayIncludes ys x) xs)"
  by (simp add: filterNotIncluded_def)

lemma filterNotIncluded_Inr:
  "filterNotIncluded r xs = Inr zs \<Longrightarrow>
     zs = filter (\<lambda>x. \<not> arrayIncludes (arrayItems (Some r)) x) xs \<and> (xs = [] \<or> (\<exists>ys. r = JArr ys))"
  by (auto simp: filterNotIncluded_def split: if_splits json.splits)

lemma updateExtends_arrays:
  "ensureStringArray (get_prop json ''extends'') = JArr xs \<Longrightarrow>
   ensureStringArray (get_prop reference ''extends'') = JArr ys \<Longrightarrow>
   updateExtendsAndRemoveDuplication json reference d e =
     Inr (storeList ''extends'' d (filter (\<lambda>x. \<not> arrayIncludes ys x) (JStr e # xs)) json,
          set_prop ''extends'' (JArr ys) reference)"
  by (simp add: updateExtendsAndRemoveDuplication_def Let_def filterNotIncluded_JArr
      storeList_set_prop)

lemma updateExtends_Inr:
  assumes "updateExtendsAndRemoveDuplication json reference d e = Inr (json', reference')"
  obtains xs ys where
    "ensureStringArray (get_prop json ''extends'') = JArr xs"
    "ensureStringArray (get_prop reference ''extends'') = JArr ys"
    "json' = storeList ''extends'' d (filter (\<lambda>x. \<not> arrayIncludes ys x) (JStr e # xs)) json"
    "reference' = set_prop ''extends'' (JArr ys) reference"
proof -
  obtain xs where xs: "ensureStringArray (get_prop json ''extends'') = JArr xs"
    using assms
    by (cases "ensureStringArray (get_prop json ''extends'')")
       (simp_all add: updateExtendsAndRemoveDuplication_def Let_def)
  obtain ys where ys: "ensureStringArray (get_prop reference ''extends'') = JArr ys"
    using assms xs
    by (cases "ensureStringArray (get_prop reference ''extends'')")
       (simp_all add: updateExtendsAndRemoveDuplication_def Let_def filterNotIncluded_def)
  show thesis
    using assms that [OF xs ys] by (simp add: updateExtends_arrays [OF xs ys])
qed


lemma updatePlugins_arrays:
  "orValue ''plugins'' (JArr []) json = JArr xs \<Longrightarrow>
   unshiftIfMissing p xs = [] \<or> (\<exists>ys. orValue ''plugins'' (JArr []) reference = JArr ys) \<Longrightarrow>
   updatePluginsAndRemoveDuplication json reference d p =
     Inr (storeList ''plugins'' d
            (filter (\<lambda>x. \<not> arrayIncludes
                             (arrayItems (Some (orValue ''plugins'' (JArr []) reference))) x)
               (unshiftIfMissing p xs)) json,
          orAssign ''plugins'' (JArr []) reference)"
  by (auto simp: updatePluginsAndRemoveDuplication_def Let_def filterNotIncluded_def
      storeList_orAssign)

lemma updatePlugins_Inr:
  assumes "updatePluginsAndRemoveDuplication json reference d p = Inr (json', reference')"
  obtains xs where
    "orValue ''plugins'' (JArr []) json = JArr xs"
    "unshiftIfMissing p xs = [] \<or> (\<exists>ys. orValue ''plugins'' (JArr []) reference = JArr ys)"
    "json' = storeList ''plugins'' d
               (filter (\<lambda>x. \<not> arrayIncludes
                               (arrayItems (Some (orValue ''plugins'' (JArr []) reference))) x)
                  (unshiftIfMissing p xs)) json"
    "reference' = orAssign ''plugins'' (JArr []) reference"
proof -
  obtain xs where xs: "orValue ''plugins'' (JArr []) json = JArr xs"
    using assms
    by (cases "orValue ''plugins'' (JArr []) json")
       (simp_all add: updatePluginsAndRemoveDuplication_def Let_def)
  obtain zs where
    "filterNotIncluded (orValue ''plugins'' (JArr []) reference) (unshiftIfMissing p xs) = Inr zs"
    using assms xs
    by (cases "filterNotIncluded (orValue ''plugins'' (JArr []) reference) (unshiftIfMissing p xs)")
       (simp_all add: updatePluginsAndRemoveDuplication_def Let_def)
  then have shape:
    "unshiftIfMissing p xs = [] \<or> (\<exists>ys. orValue ''plugins'' (JArr []) reference = JArr ys)"
    by (auto dest: filterNotIncluded_Inr)
  show thesis
    using assms that [OF xs shape] by (simp add: updatePlugins_arrays [OF xs shape])
qed

lemma arrayIncludes_JStr: "arrayIncludes ys (JStr s) = (JStr s \<in> set ys)"
  by (simp add: arrayIncludes_isString)

section \<open>Facts about the keyed-object reducers\<close>

lemma set_prop_orAssign: "set_prop k v (orAssign k d c) = set_prop k v c"
  by (simp add: orAssign_def set_prop_twice split: option.splits)

lemma delete_prop_orAssign: "delete_prop k (orAssign k d c) = delete_prop k c"
  by (simp add: orAssign_def delete_set_prop split: option.splits)

lemma map_of_filter_keys:
  "map_of (filter (\<lambda>p. P (fst p)) xs) k = (if P k then map_of xs k else None)"
  by (induction xs) auto

lemma map_of_delete_prop: "map_of (delete_prop k xs) k' = (if k' = k then None else map_of xs k')"
  using map_of_filter_keys [of "\<lambda>x. x \<noteq> k" xs k'] by (simp add: delete_prop_def)

lemma removeStrictlyEqual_filter:
  "removeStrictlyEqual es theirs obj =
     filter (\<lambda>p. \<not> list_ex (\<lambda>q. fst q = fst p
                              \<and> strictEqualsOpt (Some (snd q)) (map_of theirs (fst q))) es) obj"
proof (induction es arbitrary: obj)
  case Nil
  show ?case by simp
next
  case (Cons e es)
  show ?case
    by (cases "strictEqualsOpt (Some (snd e)) (map_of theirs (fst e))")
       (auto simp: Cons.IH delete_prop_def intro!: filter_cong)
qed

lemma removeDeeplyEqual_filter:
  "removeDeeplyEqual es theirs obj =
     filter (\<lambda>p. \<not> list_ex (\<lambda>q. fst q = fst p
                              \<and> deepStrictEqualOpt (snd q) (map_of theirs (fst q))) es) obj"
proof (induction es arbitrary: obj)
  case Nil
  show ?case by simp
next
  case (Cons e es)
  show ?case
    by (cases "deepStrictEqualOpt (snd e) (map_of theirs (fst e))")
       (auto simp: Cons.IH delete_prop_def intro!: filter_cong)
qed

lemma removeStrictlyEqual_stable:
  "removeStrictlyEqual (removeStrictlyEqual own theirs own) theirs
     (removeStrictlyEqual own theirs own) = removeStrictlyEqual own theirs own"
  by (subst (1) removeStrictlyEqual_filter)
     (auto simp: removeStrictlyEqual_filter filter_id_conv list_ex_iff)

lemma removeDeeplyEqual_stable:
  "removeDeeplyEqual (removeDeeplyEqual own theirs own) theirs
     (removeDeeplyEqual own theirs own) = removeDeeplyEqual own theirs own"
  by (subst (1) removeDeeplyEqual_filter)
     (auto simp: removeDeeplyEqual_filter filter_id_conv list_ex_iff)


lemma updateParserOptions_objects:
  "orValue ''parserOptions'' (JObj []) json = JObj own \<Longrightarrow>
   orValue ''parserOptions'' (JObj []) reference = JObj theirs \<Longrightarrow>
   ecmaVersionIsRedundant (map_of own ''ecmaVersion'') (map_of theirs ''ecmaVersion'') = Inr b \<Longrightarrow>
   updateParserOptionsAndRemoveDuplication json reference =
     Inr (set_prop ''parserOptions''
            (JObj (removeStrictlyEqual (if b then delete_prop ''ecmaVersion'' own else own) theirs
                     (if b then delete_prop ''ecmaVersion'' own else own))) json,
          orAssign ''parserOptions'' (JObj []) reference)"
  by (simp add: updateParserOptionsAndRemoveDuplication_def Let_def set_prop_orAssign)

lemma updateParserOptions_Inr:
  assumes "updateParserOptionsAndRemoveDuplication json reference = Inr (json', reference')"
  obtains own theirs b where
    "orValue ''parserOptions'' (JObj []) json = JObj own"
    "orValue ''parserOptions'' (JObj []) reference = JObj theirs"
    "ecmaVersionIsRedundant (map_of own ''ecmaVersion'') (map_of theirs ''ecmaVersion'') = Inr b"
    "json' = set_prop ''parserOptions''
               (JObj (removeStrictlyEqual (if b then delete_prop ''ecmaVersion'' own else own) theirs
                        (if b then delete_prop ''ecmaVersion'' own else own))) json"
    "reference' = orAssign ''parserOptions'' (JObj []) reference"
proof -
  obtain own where own: "orValue ''parserOptions'' (JObj []) json = JObj own"
    using assms
    by (cases "orValue ''parserOptions'' (JObj []) json")
       (simp_all add: updateParserOptionsAndRemoveDuplication_def Let_def)
  obtain theirs where theirs: "orValue ''parserOptions'' (JObj []) reference = JObj theirs"
    using assms own
    by (cases "orValue ''parserOptions'' (JObj []) reference")
       (simp_all add: updateParserOptionsAndRemoveDuplication_def Let_def)
  obtain b where
    b: "ecmaVersionIsRedundant (map_of own ''ecmaVersion'') (map_of theirs ''ecmaVersion'') = Inr b"
    using assms own theirs
    by (cases "ecmaVersionIsRedundant (map_of own ''ecmaVersion'') (map_of theirs ''ecmaVersion'')")
       (simp_all add: updateParserOptionsAndRemoveDuplication_def Let_def)
  show thesis
    using assms that [OF own theirs b] by (simp add: updateParserOptions_objects [OF own theirs b])
qed

lemma updateObjProp_objects:
  "modelledPropertyName k \<Longrightarrow>
   orValue k (JObj []) json = JObj own \<Longrightarrow>
   orValue k (JObj []) reference = JObj theirs \<Longrightarrow>
   updateObjPropAndRemoveDuplication json reference k d =
     Inr (if d \<and> removeDeeplyEqual own theirs own = [] then delete_prop k json
          else set_prop k (JObj (removeDeeplyEqual own theirs own)) json,
          orAssign k (JObj []) reference)"
  by (simp add: updateObjPropAndRemoveDuplication_def Let_def set_prop_orAssign
      delete_prop_orAssign)

lemma updateObjProp_Inr:
  assumes "updateObjPropAndRemoveDuplication json reference k d = Inr (json', reference')"
  obtains own theirs where
    "modelledPropertyName k"
    "orValue k (JObj []) json = JObj own"
    "orValue k (JObj []) reference = JObj theirs"
    "json' = (if d \<and> removeDeeplyEqual own theirs own = [] then delete_prop k json
              else set_prop k (JObj (removeDeeplyEqual own theirs own)) json)"
    "reference' = orAssign k (JObj []) reference"
proof -
  have name: "modelledPropertyName k"
    using assms by (cases "modelledPropertyName k") (simp_all add: updateObjPropAndRemoveDuplication_def)
  obtain own where own: "orValue k (JObj []) json = JObj own"
    using assms name
    by (cases "orValue k (JObj []) json")
       (simp_all add: updateObjPropAndRemoveDuplication_def Let_def)
  obtain theirs where theirs: "orValue k (JObj []) reference = JObj theirs"
    using assms name own
    by (cases "orValue k (JObj []) reference")
       (simp_all add: updateObjPropAndRemoveDuplication_def Let_def)
  show thesis
    using assms that [OF name own theirs]
    by (simp add: updateObjProp_objects [OF name own theirs])
qed

lemma ecmaVersionOf_orValue:
  "orValue ''parserOptions'' (JObj []) c = JObj opts \<Longrightarrow>
   ecmaVersionOf c = map_of opts ''ecmaVersion''"
  by (auto simp: orValue_def ecmaVersionOf_def split: option.splits json.splits if_splits)

lemma ecmaVersionIsRedundant_Inr:
  assumes "ecmaVersionIsRedundant own theirs = Inr b"
  obtains n m where "toNumber own = Inr n" "toNumber theirs = Inr m"
    "b = (numEquals n (Fin 2018) \<or> numEquals n m)"
  using assms by (auto simp: ecmaVersionIsRedundant_def split: sum.splits)

lemma entry_after_strict_loop:
  assumes "distinct (map fst own)" and "map_of own k = Some v"
  shows "map_of (removeStrictlyEqual own theirs own) k =
           (if strictEqualsOpt (Some v) (map_of theirs k) then None else Some v)"
proof -
  let ?hit = "\<lambda>q. fst q = k \<and> strictEqualsOpt (Some (snd q)) (map_of theirs (fst q))"
  have unique: "snd q = v" if "q \<in> set own" and "fst q = k" for q
  proof -
    have "(fst q, snd q) \<in> set own" using that(1) by simp
    then have "(k, snd q) \<in> set own" using that(2) by simp
    then have "map_of own k = Some (snd q)"
      using assms(1) by simp
    then show ?thesis using assms(2) by simp
  qed
  have present: "(k, v) \<in> set own"
    using assms(2) by (rule map_of_SomeD)
  have "list_ex ?hit own = strictEqualsOpt (Some v) (map_of theirs k)"
  proof
    assume "list_ex ?hit own"
    then obtain q where "q \<in> set own" and "?hit q" unfolding list_ex_iff by blast
    then show "strictEqualsOpt (Some v) (map_of theirs k)"
      using unique [of q] by auto
  next
    assume "strictEqualsOpt (Some v) (map_of theirs k)"
    then have "?hit (k, v)" by simp
    with present show "list_ex ?hit own" unfolding list_ex_iff by blast
  qed
  then show ?thesis
    using assms(2)
      map_of_filter_keys [of "\<lambda>k'. \<not> list_ex (\<lambda>q. fst q = k'
                      \<and> strictEqualsOpt (Some (snd q)) (map_of theirs (fst q))) own" own k]
    by (simp add: removeStrictlyEqual_filter)
qed

lemma entry_gone_after_delete:
  "map_of (removeStrictlyEqual es theirs (delete_prop k own)) k = None"
  using map_of_filter_keys [of "\<lambda>k'. \<not> list_ex (\<lambda>q. fst q = k'
                      \<and> strictEqualsOpt (Some (snd q)) (map_of theirs (fst q))) es"
          "delete_prop k own" k]
  by (simp add: removeStrictlyEqual_filter map_of_delete_prop)

section \<open>Frames and fixed points of the reducers\<close>

lemma overridesFilterFn_False: "\<not> overridesFilterFn ov es"
  by (induction es) auto

lemma updateOverrides_result:
  "updateOverridesAndRemoveDuplication json reference d =
     Inr (if isNonEmptyArray (get_prop json ''overrides'')
             \<and> isNonEmptyArray (get_prop reference ''overrides'')
          then (if d then delete_prop ''overrides'' json
                else set_prop ''overrides'' (JArr []) json)
          else json,
          reference)"
  by (simp add: updateOverridesAndRemoveDuplication_def overridesFilterFn_False)

subsection \<open>Each reducer touches one field\<close>

lemma updateExtends_frame:
  assumes "updateExtendsAndRemoveDuplication json reference d e = Inr (json', reference')"
    and "k \<noteq> ''extends''"
  shows "get_prop json' k = get_prop json k" and "get_prop reference' k = get_prop reference k"
  using assms(1)
  by (rule updateExtends_Inr, simp add: get_storeList get_set_prop assms(2))+

lemma updatePlugins_frame:
  assumes "updatePluginsAndRemoveDuplication json reference d p = Inr (json', reference')"
    and "k \<noteq> ''plugins''"
  shows "get_prop json' k = get_prop json k" and "get_prop reference' k = get_prop reference k"
  using assms(1)
  by (rule updatePlugins_Inr, simp add: get_storeList get_orAssign assms(2))+

lemma updateParserOptions_frame:
  assumes "updateParserOptionsAndRemoveDuplication json reference = Inr (json', reference')"
    and "k \<noteq> ''parserOptions''"
  shows "get_prop json' k = get_prop json k" and "get_prop reference' k = get_prop reference k"
  using assms(1)
  by (rule updateParserOptions_Inr, simp add: get_set_prop get_orAssign assms(2))+

lemma updateObjProp_frame:
  assumes "updateObjPropAndRemoveDuplication json reference f d = Inr (json', reference')"
    and "k \<noteq> f"
  shows "get_prop json' k = get_prop json k" and "get_prop reference' k = get_prop reference k"
  using assms(1)
  by (rule updateObjProp_Inr, simp add: get_set_prop get_delete_prop get_orAssign assms(2))+

lemma updateOverrides_frame:
  assumes "updateOverridesAndRemoveDuplication json reference d = Inr (json', reference')"
    and "k \<noteq> ''overrides''"
  shows "get_prop json' k = get_prop json k" and "reference' = reference"
  using assms by (auto simp: updateOverrides_result get_set_prop get_delete_prop)


subsection \<open>Running a reducer on its own result changes nothing\<close>

lemma filter_own_result:
  "filter P (arrayFromSet (filter P xs)) = arrayFromSet (filter P xs)"
  by (rule filter_arrayFromSet) (simp add: list_all_iff)

lemma extends_list_stable:
  assumes "zs = arrayFromSet (filter P (JStr e # xs))"
  shows "arrayFromSet (filter P (JStr e # zs)) = zs"
proof (cases "P (JStr e)")
  case True
  then have zs: "zs = arrayFromSet (JStr e # filter P xs)" using assms by simp
  have "filter P zs = zs" unfolding assms by (rule filter_own_result)
  then have "filter P (JStr e # zs) = JStr e # zs" using True by simp
  then show ?thesis using arrayFromSet_repeat_head [OF zs] by simp
next
  case False
  have "filter P zs = zs" unfolding assms by (rule filter_own_result)
  then have "filter P (JStr e # zs) = zs" using False by simp
  then show ?thesis by (simp add: assms arrayFromSet_idem)
qed

lemma mem_unshiftIfMissing:
  "p \<noteq> [] \<Longrightarrow> JStr p \<in> set (unshiftIfMissing (Some p) xs)"
  by (simp add: unshiftIfMissing_def arrayIncludes_JStr)

lemma plugins_list_stable:
  assumes "zs = arrayFromSet (filter P (unshiftIfMissing p xs))"
  shows "arrayFromSet (filter P (unshiftIfMissing p zs)) = zs"
proof -
  have kept: "filter P zs = zs" unfolding assms by (rule filter_own_result)
  have settled: "arrayFromSet zs = zs" by (simp add: assms arrayFromSet_idem)
  show ?thesis
  proof (cases "unshiftIfMissing p zs = zs")
    case True
    then show ?thesis by (simp add: kept settled)
  next
    case False
    then obtain s where p: "p = Some s" and s: "s \<noteq> []" and new: "JStr s \<notin> set zs"
      and front: "unshiftIfMissing p zs = JStr s # zs"
      by (auto simp: unshiftIfMissing_def arrayIncludes_JStr split: option.splits if_splits)
    have "JStr s \<in> set (unshiftIfMissing p xs)"
      unfolding p using s by (rule mem_unshiftIfMissing)
    then have "\<not> P (JStr s)"
      using new by (auto simp: assms set_arrayFromSet)
    then show ?thesis by (simp add: front kept settled)
  qed
qed

lemma unshiftIfMissing_empty:
  "unshiftIfMissing p xs = [] \<Longrightarrow> unshiftIfMissing p [] = []"
  by (auto simp: unshiftIfMissing_def split: option.splits if_splits)

lemma updateExtends_stable:
  assumes run: "updateExtendsAndRemoveDuplication json reference d e = Inr (json', reference')"
    and own: "get_prop j ''extends'' = get_prop json' ''extends''"
    and theirs: "get_prop r ''extends'' = get_prop reference' ''extends''"
  shows "updateExtendsAndRemoveDuplication j r d e = Inr (j, r)"
proof -
  from run obtain xs ys where
    json': "json' = storeList ''extends'' d
                      (filter (\<lambda>x. \<not> arrayIncludes ys x) (JStr e # xs)) json" and
    reference': "reference' = set_prop ''extends'' (JArr ys) reference"
    by (rule updateExtends_Inr)
  define zs where "zs = arrayFromSet (filter (\<lambda>x. \<not> arrayIncludes ys x) (JStr e # xs))"
  have j: "get_prop j ''extends'' = (if d \<and> zs = [] then None else Some (JArr zs))"
    by (simp add: own json' get_storeList zs_def)
  have r: "get_prop r ''extends'' = Some (JArr ys)"
    by (simp add: theirs reference' get_set_prop)
  have xs': "ensureStringArray (get_prop j ''extends'') = JArr zs"
    by (simp add: j)
  have ys': "ensureStringArray (get_prop r ''extends'') = JArr ys"
    by (simp add: r)
  have again: "arrayFromSet (filter (\<lambda>x. \<not> arrayIncludes ys x) (JStr e # zs)) = zs"
    using zs_def by (rule extends_list_stable)
  have "storeList ''extends'' d (filter (\<lambda>x. \<not> arrayIncludes ys x) (JStr e # zs)) j = j"
    by (rule storeList_same) (simp only: again j)
  moreover have "set_prop ''extends'' (JArr ys) r = r"
    using r by (rule set_prop_same)
  ultimately show ?thesis
    by (simp add: updateExtends_arrays [OF xs' ys'])
qed

lemma updatePlugins_stable:
  assumes run: "updatePluginsAndRemoveDuplication json reference d p = Inr (json', reference')"
    and own: "get_prop j ''plugins'' = get_prop json' ''plugins''"
    and theirs: "get_prop r ''plugins'' = get_prop reference' ''plugins''"
  shows "updatePluginsAndRemoveDuplication j r d p = Inr (j, r)"
proof -
  define tv where "tv = orValue ''plugins'' (JArr []) reference"
  from run obtain xs where
    shape: "unshiftIfMissing p xs = [] \<or> (\<exists>ys. tv = JArr ys)" and
    json': "json' = storeList ''plugins'' d
                      (filter (\<lambda>x. \<not> arrayIncludes (arrayItems (Some tv)) x)
                         (unshiftIfMissing p xs)) json" and
    reference': "reference' = orAssign ''plugins'' (JArr []) reference"
    unfolding tv_def by (rule updatePlugins_Inr)
  define zs where
    "zs = arrayFromSet (filter (\<lambda>x. \<not> arrayIncludes (arrayItems (Some tv)) x)
                          (unshiftIfMissing p xs))"
  have j: "get_prop j ''plugins'' = (if d \<and> zs = [] then None else Some (JArr zs))"
    by (simp add: own json' get_storeList zs_def)
  have r: "get_prop r ''plugins'' = Some tv"
    by (simp add: theirs reference' get_orAssign tv_def)
  have truthy: "truthy tv" by (simp add: tv_def truthy_orValue)
  have xs': "orValue ''plugins'' (JArr []) j = JArr zs"
    by (simp add: j orValue_def)
  have tv': "orValue ''plugins'' (JArr []) r = tv"
    using r truthy by (rule orValue_truthy)
  have r_same: "orAssign ''plugins'' (JArr []) r = r"
    using r truthy by (rule orAssign_truthy)
  have again: "arrayFromSet (filter (\<lambda>x. \<not> arrayIncludes (arrayItems (Some tv)) x)
                               (unshiftIfMissing p zs)) = zs"
    using zs_def by (rule plugins_list_stable)
  have shape': "unshiftIfMissing p zs = [] \<or> (\<exists>ys. orValue ''plugins'' (JArr []) r = JArr ys)"
  proof (cases "unshiftIfMissing p xs = []")
    case True
    then have "zs = []" by (simp add: zs_def arrayFromSet_def)
    then show ?thesis using True by (simp add: unshiftIfMissing_empty)
  next
    case False
    then show ?thesis using shape by (simp add: tv')
  qed
  have "storeList ''plugins'' d
          (filter (\<lambda>x. \<not> arrayIncludes (arrayItems (Some tv)) x) (unshiftIfMissing p zs)) j = j"
    by (rule storeList_same) (simp only: again j)
  then show ?thesis
    by (simp add: updatePlugins_arrays [OF xs' shape'] tv' r_same)
qed


lemma ecmaVersionIsRedundant_kept:
  assumes "ecmaVersionIsRedundant own theirs = Inr b"
    and "left = None \<or> (\<not> b \<and> left = own)"
  shows "ecmaVersionIsRedundant left theirs = Inr False"
proof -
  from assms(1) obtain n m where
    n: "toNumber own = Inr n" and m: "toNumber theirs = Inr m"
    and b: "b = (numEquals n (Fin 2018) \<or> numEquals n m)"
    by (rule ecmaVersionIsRedundant_Inr)
  from assms(2) show ?thesis
  proof
    assume "left = None"
    then show ?thesis by (simp add: ecmaVersionIsRedundant_def m)
  next
    assume "\<not> b \<and> left = own"
    then show ?thesis using b by (simp add: ecmaVersionIsRedundant_def n m)
  qed
qed

lemma updateParserOptions_stable:
  assumes run: "updateParserOptionsAndRemoveDuplication json reference = Inr (json', reference')"
    and own: "get_prop j ''parserOptions'' = get_prop json' ''parserOptions''"
    and theirs: "get_prop r ''parserOptions'' = get_prop reference' ''parserOptions''"
  shows "updateParserOptionsAndRemoveDuplication j r = Inr (j, r)"
proof -
  from run obtain opts theirOpts b where
    theirOpts: "orValue ''parserOptions'' (JObj []) reference = JObj theirOpts" and
    b: "ecmaVersionIsRedundant (map_of opts ''ecmaVersion'') (map_of theirOpts ''ecmaVersion'')
          = Inr b" and
    json': "json' = set_prop ''parserOptions''
               (JObj (removeStrictlyEqual (if b then delete_prop ''ecmaVersion'' opts else opts)
                        theirOpts (if b then delete_prop ''ecmaVersion'' opts else opts))) json" and
    reference': "reference' = orAssign ''parserOptions'' (JObj []) reference"
    by (rule updateParserOptions_Inr)
  define opts1 where "opts1 = (if b then delete_prop ''ecmaVersion'' opts else opts)"
  define opts2 where "opts2 = removeStrictlyEqual opts1 theirOpts opts1"
  have j: "get_prop j ''parserOptions'' = Some (JObj opts2)"
    by (simp add: own json' get_set_prop opts1_def opts2_def)
  have r: "get_prop r ''parserOptions'' = Some (JObj theirOpts)"
    by (simp add: theirs reference' get_orAssign theirOpts)
  have own': "orValue ''parserOptions'' (JObj []) j = JObj opts2"
    using j by (simp add: orValue_def)
  have theirs': "orValue ''parserOptions'' (JObj []) r = JObj theirOpts"
    using r by (simp add: orValue_def)
  have r_same: "orAssign ''parserOptions'' (JObj []) r = r"
    using r by (simp add: orAssign_def)
  have "map_of opts2 ''ecmaVersion'' = None
        \<or> (\<not> b \<and> map_of opts2 ''ecmaVersion'' = map_of opts ''ecmaVersion'')"
    using map_of_filter_keys [of "\<lambda>k'. \<not> list_ex (\<lambda>q. fst q = k'
                      \<and> strictEqualsOpt (Some (snd q)) (map_of theirOpts (fst q))) opts1"
          opts1 "''ecmaVersion''"]
    by (cases b) (simp_all add: opts2_def opts1_def removeStrictlyEqual_filter map_of_delete_prop)
  with b have b': "ecmaVersionIsRedundant (map_of opts2 ''ecmaVersion'')
                     (map_of theirOpts ''ecmaVersion'') = Inr False"
    by (rule ecmaVersionIsRedundant_kept)
  have "removeStrictlyEqual opts2 theirOpts opts2 = opts2"
    unfolding opts2_def by (rule removeStrictlyEqual_stable)
  moreover have "set_prop ''parserOptions'' (JObj opts2) j = j"
    using j by (rule set_prop_same)
  ultimately show ?thesis
    using updateParserOptions_objects [OF own' theirs' b'] by (simp add: r_same)
qed

lemma updateObjProp_stable:
  assumes run: "updateObjPropAndRemoveDuplication json reference f d = Inr (json', reference')"
    and own: "get_prop j f = get_prop json' f"
    and theirs: "get_prop r f = get_prop reference' f"
  shows "updateObjPropAndRemoveDuplication j r f d = Inr (j, r)"
proof -
  from run obtain props theirProps where
    name: "modelledPropertyName f" and
    theirProps: "orValue f (JObj []) reference = JObj theirProps" and
    json': "json' = (if d \<and> removeDeeplyEqual props theirProps props = [] then delete_prop f json
                     else set_prop f (JObj (removeDeeplyEqual props theirProps props)) json)" and
    reference': "reference' = orAssign f (JObj []) reference"
    by (rule updateObjProp_Inr)
  define props1 where "props1 = removeDeeplyEqual props theirProps props"
  have j: "get_prop j f = (if d \<and> props1 = [] then None else Some (JObj props1))"
    by (simp add: own json' get_set_prop get_delete_prop props1_def)
  have r: "get_prop r f = Some (JObj theirProps)"
    by (simp add: theirs reference' get_orAssign theirProps)
  have own': "orValue f (JObj []) j = JObj props1"
    using j by (simp add: orValue_def)
  have theirs': "orValue f (JObj []) r = JObj theirProps"
    using r by (simp add: orValue_def)
  have r_same: "orAssign f (JObj []) r = r"
    using r by (simp add: orAssign_def)
  have again: "removeDeeplyEqual props1 theirProps props1 = props1"
    unfolding props1_def by (rule removeDeeplyEqual_stable)
  have same: "(if d \<and> props1 = [] then delete_prop f j else set_prop f (JObj props1) j) = j"
    using j by (simp add: delete_prop_absent set_prop_same)
  have "updateObjPropAndRemoveDuplication j r f d =
          Inr (if d \<and> props1 = [] then delete_prop f j else set_prop f (JObj props1) j, r)"
    by (simp only: updateObjProp_objects [OF name own' theirs'] again r_same)
  then show ?thesis by (simp only: same)
qed

lemma updateOverrides_stable:
  assumes run: "updateOverridesAndRemoveDuplication json reference d = Inr (json', reference')"
    and own: "get_prop j ''overrides'' = get_prop json' ''overrides''"
    and theirs: "get_prop r ''overrides'' = get_prop reference' ''overrides''"
  shows "updateOverridesAndRemoveDuplication j r d = Inr (j, r)"
proof -
  have "\<not> (isNonEmptyArray (get_prop j ''overrides'') \<and> isNonEmptyArray (get_prop r ''overrides''))"
    using run own theirs
    by (auto simp: updateOverrides_result get_set_prop get_delete_prop split: if_splits)
  then show ?thesis by (auto simp: updateOverrides_result)
qed


subsection \<open>The steps of the root configuration update\<close>

lemma updateRoot_steps:
  "updateExtendsAndRemoveDuplication json reference True ''plugin:@nrwl/nx/typescript''
     = Inr (json1, reference1) \<Longrightarrow>
   updatePluginsAndRemoveDuplication json1 reference1 True (Some ''@nrwl/nx'')
     = Inr (json2, reference2) \<Longrightarrow>
   updateParserOptionsAndRemoveDuplication json2 reference2 = Inr (json3, reference3) \<Longrightarrow>
   updateOverridesAndRemoveDuplication json3 reference3 True = Inr (json4, reference4) \<Longrightarrow>
   updateObjPropAndRemoveDuplication json4 reference4 ''rules'' False = Inr (json5, reference5) \<Longrightarrow>
   updateRootESLintConfig json reference = Inr (deleteParserIfSame json5 reference5, reference5)"
  by (simp add: updateRootESLintConfig_def andThen_def)

lemma updateRoot_Inr:
  assumes "updateRootESLintConfig json reference = Inr (json', reference')"
  obtains json1 reference1 json2 reference2 json3 reference3 json4 reference4 json5 where
    "updateExtendsAndRemoveDuplication json reference True ''plugin:@nrwl/nx/typescript''
       = Inr (json1, reference1)"
    "updatePluginsAndRemoveDuplication json1 reference1 True (Some ''@nrwl/nx'')
       = Inr (json2, reference2)"
    "updateParserOptionsAndRemoveDuplication json2 reference2 = Inr (json3, reference3)"
    "updateOverridesAndRemoveDuplication json3 reference3 True = Inr (json4, reference4)"
    "updateObjPropAndRemoveDuplication json4 reference4 ''rules'' False = Inr (json5, reference')"
    "json' = deleteParserIfSame json5 reference'"
  using assms
  by (auto simp: updateRootESLintConfig_def andThen_def split: sum.splits prod.splits)

text \<open>The definitions that evaluate a reducer on a given document.\<close>

lemmas reducer_defs =
  updateExtendsAndRemoveDuplication_def updatePluginsAndRemoveDuplication_def
  updateParserOptionsAndRemoveDuplication_def updateObjPropAndRemoveDuplication_def
  updateOverridesAndRemoveDuplication_def
  unshiftIfMissing_def filterNotIncluded_def storeList_def arrayFromSet_def setAdd_def
  arrayIncludes_def orValue_def orAssign_def get_prop_def delete_prop_def
  ecmaVersionIsRedundant_def StringToNumber_def digitValue_def startsNoNumericLiteral_def
  modelledPropertyName_def

lemmas root_defs =
  updateRootESLintConfig_def updateReactESLintConfig_def andThen_def deleteParserIfSame_def
  currentTypescriptConfig_def

section \<open>What the list reducers leave behind\<close>

text \<open>
  Claim C3, as the code has it. When the target's list holds strings, the resulting
  \<^verbatim>\<open>extends\<close> and \<^verbatim>\<open>plugins\<close> have no duplicates and keep the first-seen order of the
  list the filter ran on. In \<^verbatim>\<open>extends\<close> the added identifier is the first element
  whenever it survives. In \<^verbatim>\<open>plugins\<close> the identifier is the first element whenever it
  survives and the target did not list it before; one that the target already lists
  stays where it was.
\<close>

theorem list_fields_deduplicated:
  "(updateExtendsAndRemoveDuplication json reference d extendsToAdd = Inr (json1, reference1)
      \<and> ensureStringArray (get_prop json ''extends'') = JArr xs \<and> list_all isString xs
    \<longrightarrow> distinct (arrayItems (get_prop json1 ''extends''))
        \<and> keepsFirstSeenOrder (JStr extendsToAdd # xs) (arrayItems (get_prop json1 ''extends''))
        \<and> (JStr extendsToAdd \<in> set (arrayItems (get_prop json1 ''extends''))
             \<longrightarrow> hd (arrayItems (get_prop json1 ''extends'')) = JStr extendsToAdd))
   \<and> (updatePluginsAndRemoveDuplication json reference d (Some ensurePlugin) = Inr (json2, reference2)
      \<and> orValue ''plugins'' (JArr []) json = JArr ps \<and> list_all isString ps
    \<longrightarrow> distinct (arrayItems (get_prop json2 ''plugins''))
        \<and> keepsFirstSeenOrder (unshiftIfMissing (Some ensurePlugin) ps)
             (arrayItems (get_prop json2 ''plugins''))
        \<and> (JStr ensurePlugin \<in> set (arrayItems (get_prop json2 ''plugins''))
             \<and> JStr ensurePlugin \<notin> set ps
             \<longrightarrow> hd (arrayItems (get_prop json2 ''plugins'')) = JStr ensurePlugin))"
proof (intro conjI impI; elim conjE)
  assume run: "updateExtendsAndRemoveDuplication json reference d extendsToAdd = Inr (json1, reference1)"
    and xs: "ensureStringArray (get_prop json ''extends'') = JArr xs"
    and strings: "list_all isString xs"
  from run obtain xs' ys where
    "ensureStringArray (get_prop json ''extends'') = JArr xs'" and
    "json1 = storeList ''extends'' d
               (filter (\<lambda>x. \<not> arrayIncludes ys x) (JStr extendsToAdd # xs')) json"
    by (rule updateExtends_Inr)
  with xs have
    items: "arrayItems (get_prop json1 ''extends'') =
              arrayFromSet (filter (\<lambda>x. \<not> arrayIncludes ys x) (JStr extendsToAdd # xs))"
    by (simp add: arrayItems_storeList)
  have filtered: "list_all isString (filter (\<lambda>x. \<not> arrayIncludes ys x) (JStr extendsToAdd # xs))"
    using strings by (simp add: list_all_iff)
  show "distinct (arrayItems (get_prop json1 ''extends''))"
    unfolding items using filtered by (rule distinct_arrayFromSet)
  have "keepsFirstSeenOrder (filter (\<lambda>x. \<not> arrayIncludes ys x) (JStr extendsToAdd # xs))
          (arrayItems (get_prop json1 ''extends''))"
    unfolding items using filtered by (rule firstSeen_arrayFromSet)
  then show "keepsFirstSeenOrder (JStr extendsToAdd # xs) (arrayItems (get_prop json1 ''extends''))"
    by (rule firstSeen_filter)
  show "hd (arrayItems (get_prop json1 ''extends'')) = JStr extendsToAdd"
    if "JStr extendsToAdd \<in> set (arrayItems (get_prop json1 ''extends''))"
  proof -
    from that have "\<not> arrayIncludes ys (JStr extendsToAdd)"
      by (auto simp: items set_arrayFromSet split: if_splits)
    then show ?thesis
      using arrayFromSet_Cons_string [of extendsToAdd "filter (\<lambda>x. \<not> arrayIncludes ys x) xs"]
      by (auto simp: items)
  qed
next
  assume run: "updatePluginsAndRemoveDuplication json reference d (Some ensurePlugin) = Inr (json2, reference2)"
    and ps: "orValue ''plugins'' (JArr []) json = JArr ps"
    and strings: "list_all isString ps"
  define theirs where "theirs = arrayItems (Some (orValue ''plugins'' (JArr []) reference))"
  from run obtain ps' where
    "orValue ''plugins'' (JArr []) json = JArr ps'" and
    "json2 = storeList ''plugins'' d
               (filter (\<lambda>x. \<not> arrayIncludes
                               (arrayItems (Some (orValue ''plugins'' (JArr []) reference))) x)
                  (unshiftIfMissing (Some ensurePlugin) ps')) json"
    by (rule updatePlugins_Inr)
  with ps have
    items: "arrayItems (get_prop json2 ''plugins'') =
              arrayFromSet (filter (\<lambda>x. \<not> arrayIncludes theirs x)
                              (unshiftIfMissing (Some ensurePlugin) ps))"
    by (simp add: arrayItems_storeList theirs_def)
  have "list_all isString (unshiftIfMissing (Some ensurePlugin) ps)"
    using strings by (simp add: unshiftIfMissing_def)
  then have filtered: "list_all isString (filter (\<lambda>x. \<not> arrayIncludes theirs x)
                                           (unshiftIfMissing (Some ensurePlugin) ps))"
    by (simp add: list_all_iff)
  show "distinct (arrayItems (get_prop json2 ''plugins''))"
    unfolding items using filtered by (rule distinct_arrayFromSet)
  have "keepsFirstSeenOrder
          (filter (\<lambda>x. \<not> arrayIncludes theirs x) (unshiftIfMissing (Some ensurePlugin) ps))
          (arrayItems (get_prop json2 ''plugins''))"
    unfolding items using filtered by (rule firstSeen_arrayFromSet)
  then show "keepsFirstSeenOrder (unshiftIfMissing (Some ensurePlugin) ps)
          (arrayItems (get_prop json2 ''plugins''))"
    by (rule firstSeen_filter)
  show "hd (arrayItems (get_prop json2 ''plugins'')) = JStr ensurePlugin"
    if "JStr ensurePlugin \<in> set (arrayItems (get_prop json2 ''plugins''))"
      and "JStr ensurePlugin \<notin> set ps"
  proof -
    from that have kept: "\<not> arrayIncludes theirs (JStr ensurePlugin)"
      and new: "JStr ensurePlugin \<notin> set ps"
      and "JStr ensurePlugin \<in> set (unshiftIfMissing (Some ensurePlugin) ps)"
      by (auto simp: items set_arrayFromSet)
    then have "unshiftIfMissing (Some ensurePlugin) ps = JStr ensurePlugin # ps"
      by (auto simp: unshiftIfMissing_def split: if_splits)
    then show ?thesis
      using kept arrayFromSet_Cons_string [of ensurePlugin "filter (\<lambda>x. \<not> arrayIncludes theirs x) ps"]
      by (auto simp: items)
  qed
qed



theorem list_fields_deduplicated_witness:
  "updateExtendsAndRemoveDuplication
     [(''extends'', JArr [JStr ''a'', JStr ''b'', JStr ''a'']),
      (''plugins'', JArr [JStr ''x'', JStr ''y'', JStr ''x''])]
     [(''extends'', JArr [JStr ''b'']), (''plugins'', JArr [JStr ''y''])] False ''p''
   = Inr ([(''extends'', JArr [JStr ''p'', JStr ''a'']),
           (''plugins'', JArr [JStr ''x'', JStr ''y'', JStr ''x''])],
          [(''extends'', JArr [JStr ''b'']), (''plugins'', JArr [JStr ''y''])])
   \<and> distinct [JStr ''p'', JStr ''a'']
   \<and> keepsFirstSeenOrder [JStr ''p'', JStr ''a'', JStr ''b'', JStr ''a''] [JStr ''p'', JStr ''a'']
   \<and> hd [JStr ''p'', JStr ''a''] = JStr ''p''
   \<and> updatePluginsAndRemoveDuplication
     [(''extends'', JArr [JStr ''a'', JStr ''b'', JStr ''a'']),
      (''plugins'', JArr [JStr ''x'', JStr ''y'', JStr ''x''])]
     [(''extends'', JArr [JStr ''b'']), (''plugins'', JArr [JStr ''y''])] False (Some ''q'')
   = Inr ([(''extends'', JArr [JStr ''a'', JStr ''b'', JStr ''a'']),
           (''plugins'', JArr [JStr ''q'', JStr ''x''])],
          [(''extends'', JArr [JStr ''b'']), (''plugins'', JArr [JStr ''y''])])
   \<and> distinct [JStr ''q'', JStr ''x'']
   \<and> keepsFirstSeenOrder [JStr ''q'', JStr ''x'', JStr ''y'', JStr ''x''] [JStr ''q'', JStr ''x'']
   \<and> hd [JStr ''q'', JStr ''x''] = JStr ''q''"
proof -
  let ?json = "[(''extends'', JArr [JStr ''a'', JStr ''b'', JStr ''a'']),
                (''plugins'', JArr [JStr ''x'', JStr ''y'', JStr ''x''])]"
  let ?reference = "[(''extends'', JArr [JStr ''b'']), (''plugins'', JArr [JStr ''y''])]"
  let ?json1 = "[(''extends'', JArr [JStr ''p'', JStr ''a'']),
                 (''plugins'', JArr [JStr ''x'', JStr ''y'', JStr ''x''])]"
  let ?json2 = "[(''extends'', JArr [JStr ''a'', JStr ''b'', JStr ''a'']),
                 (''plugins'', JArr [JStr ''q'', JStr ''x''])]"
  have extends: "updateExtendsAndRemoveDuplication ?json ?reference False ''p''
                   = Inr (?json1, ?reference)"
    by (simp add: reducer_defs)
  have plugins: "updatePluginsAndRemoveDuplication ?json ?reference False (Some ''q'')
                   = Inr (?json2, ?reference)"
    by (simp add: reducer_defs)
  have typed:
    "ensureStringArray (get_prop ?json ''extends'') = JArr [JStr ''a'', JStr ''b'', JStr ''a'']"
    "orValue ''plugins'' (JArr []) ?json = JArr [JStr ''x'', JStr ''y'', JStr ''x'']"
    "list_all isString [JStr ''a'', JStr ''b'', JStr ''a'']"
    "list_all isString [JStr ''x'', JStr ''y'', JStr ''x'']"
    by (simp_all add: get_prop_def orValue_def)
  have inserted:
    "unshiftIfMissing (Some ''q'') [JStr ''x'', JStr ''y'', JStr ''x'']
       = [JStr ''q'', JStr ''x'', JStr ''y'', JStr ''x'']"
    by (simp add: unshiftIfMissing_def arrayIncludes_def)
  from list_fields_deduplicated [of ?json ?reference False "''p''" ?json1 ?reference
      "[JStr ''a'', JStr ''b'', JStr ''a'']" "''q''" ?json2 ?reference
      "[JStr ''x'', JStr ''y'', JStr ''x'']"] extends plugins typed
  show ?thesis by (simp add: get_prop_def inserted)
qed

theorem plugin_not_moved_to_front_counterexample:
  "updatePluginsAndRemoveDuplication
     [(''plugins'', JArr [JStr ''react'', JStr ''@nrwl/nx''])] [(''plugins'', JArr [])]
     True (Some ''@nrwl/nx'')
   = Inr ([(''plugins'', JArr [JStr ''react'', JStr ''@nrwl/nx''])], [(''plugins'', JArr [])])
   \<and> JStr ''@nrwl/nx'' \<in> set [JStr ''react'', JStr ''@nrwl/nx'']
   \<and> hd [JStr ''react'', JStr ''@nrwl/nx''] \<noteq> JStr ''@nrwl/nx''"
  by (simp add: reducer_defs)





section \<open>What the keyed-object reducers leave behind\<close>

text \<open>
  Claim C10. After \<^verbatim>\<open>updateParserOptionsAndRemoveDuplication\<close> has returned, the target
  has a \<^verbatim>\<open>parserOptions\<close> field holding an object: the reducer creates the field when it
  is missing and has no way to delete it, also when every key in it was removed.
\<close>

theorem parserOptions_always_present:
  "updateParserOptionsAndRemoveDuplication json reference = Inr (json', reference')
   \<Longrightarrow> \<exists>opts. get_prop json' ''parserOptions'' = Some (JObj opts)"
  by (erule updateParserOptions_Inr) (simp add: get_set_prop)

theorem parserOptions_always_present_witness:
  "updateParserOptionsAndRemoveDuplication
     [(''parserOptions'', JObj [(''ecmaVersion'', JNum 2018), (''sourceType'', JStr ''module'')])]
     currentTypescriptConfig
   = Inr ([(''parserOptions'', JObj [])], currentTypescriptConfig)
   \<and> get_prop [(''parserOptions'', JObj [])] ''parserOptions'' = Some (JObj [])"
proof -
  have run: "updateParserOptionsAndRemoveDuplication
     [(''parserOptions'', JObj [(''ecmaVersion'', JNum 2018), (''sourceType'', JStr ''module'')])]
     currentTypescriptConfig
   = Inr ([(''parserOptions'', JObj [])], currentTypescriptConfig)"
    by (simp add: reducer_defs currentTypescriptConfig_def)
  from parserOptions_always_present [OF run] run
  show ?thesis by (simp add: get_prop_def)
qed


text \<open>
  Claim C4, as the code has it. When the field is missing in the target,
  \<^verbatim>\<open>updateObjPropAndRemoveDuplication\<close> with \<open>deleteIfUltimatelyEmpty = false\<close> and
  \<^verbatim>\<open>updateParserOptionsAndRemoveDuplication\<close> create it as the empty object, as the last
  key of the target, and change nothing else. The target is returned as it was by
  \<^verbatim>\<open>updateObjPropAndRemoveDuplication\<close> with \<open>deleteIfUltimatelyEmpty = true\<close>, by
  \<^verbatim>\<open>updateOverridesAndRemoveDuplication\<close>, and by \<^verbatim>\<open>updatePluginsAndRemoveDuplication\<close>
  called with \<open>deleteIfUltimatelyEmpty = true\<close> and no plugin to insert; with
  \<open>deleteIfUltimatelyEmpty = false\<close> the latter creates \<^verbatim>\<open>plugins\<close> as the empty list.
\<close>

theorem absent_field_after_reducer:
  "(get_prop json k = None
      \<and> updateObjPropAndRemoveDuplication json reference k d = Inr (json1, reference1)
    \<longrightarrow> json1 = (if d then json else json @ [(k, JObj [])]))
   \<and> (get_prop json ''parserOptions'' = None
      \<and> updateParserOptionsAndRemoveDuplication json reference = Inr (json2, reference2)
    \<longrightarrow> json2 = json @ [(''parserOptions'', JObj [])])
   \<and> (get_prop json ''overrides'' = None
    \<longrightarrow> updateOverridesAndRemoveDuplication json reference d = Inr (json, reference))
   \<and> (get_prop json ''plugins'' = None
    \<longrightarrow> updatePluginsAndRemoveDuplication json reference d None
          = Inr (if d then json else json @ [(''plugins'', JArr [])],
                 orAssign ''plugins'' (JArr []) reference))"
proof (intro conjI impI; (elim conjE)?)
  assume absent: "get_prop json k = None"
    and run: "updateObjPropAndRemoveDuplication json reference k d = Inr (json1, reference1)"
  from run obtain own theirs where
    own: "orValue k (JObj []) json = JObj own" and
    json1: "json1 = (if d \<and> removeDeeplyEqual own theirs own = [] then delete_prop k json
                     else set_prop k (JObj (removeDeeplyEqual own theirs own)) json)"
    by (rule updateObjProp_Inr)
  from absent own have "own = []" by (simp add: orValue_absent)
  then show "json1 = (if d then json else json @ [(k, JObj [])])"
    using absent by (simp add: json1 delete_prop_absent set_prop_absent)
next
  assume absent: "get_prop json ''parserOptions'' = None"
    and run: "updateParserOptionsAndRemoveDuplication json reference = Inr (json2, reference2)"
  from run obtain own theirs b where
    own: "orValue ''parserOptions'' (JObj []) json = JObj own" and
    json2: "json2 = set_prop ''parserOptions''
               (JObj (removeStrictlyEqual (if b then delete_prop ''ecmaVersion'' own else own) theirs
                        (if b then delete_prop ''ecmaVersion'' own else own))) json"
    by (rule updateParserOptions_Inr)
  from absent own have "own = []" by (simp add: orValue_absent)
  then show "json2 = json @ [(''parserOptions'', JObj [])]"
    using absent by (simp add: json2 set_prop_absent delete_prop_def)
next
  assume "get_prop json ''overrides'' = None"
  then show "updateOverridesAndRemoveDuplication json reference d = Inr (json, reference)"
    by (simp add: updateOverridesAndRemoveDuplication_def)
next
  assume absent: "get_prop json ''plugins'' = None"
  then have own: "orValue ''plugins'' (JArr []) json = JArr []"
    by (simp add: orValue_absent)
  have "arrayFromSet [] = []" by (simp add: arrayFromSet_def)
  then show "updatePluginsAndRemoveDuplication json reference d None
          = Inr (if d then json else json @ [(''plugins'', JArr [])],
                 orAssign ''plugins'' (JArr []) reference)"
    using absent
    by (simp add: updatePlugins_arrays [OF own] unshiftIfMissing_def storeList_def
        delete_prop_absent set_prop_absent)
qed

theorem absent_field_after_reducer_witness:
  "get_prop [(''root'', JBool True)] ''rules'' = None
   \<and> updateObjPropAndRemoveDuplication [(''root'', JBool True)] currentTypescriptConfig ''rules'' False
       = Inr ([(''root'', JBool True), (''rules'', JObj [])], currentTypescriptConfig)
   \<and> updateParserOptionsAndRemoveDuplication [(''root'', JBool True)] currentTypescriptConfig
       = Inr ([(''root'', JBool True), (''parserOptions'', JObj [])], currentTypescriptConfig)
   \<and> updateOverridesAndRemoveDuplication [(''root'', JBool True)] currentTypescriptConfig False
       = Inr ([(''root'', JBool True)], currentTypescriptConfig)
   \<and> updatePluginsAndRemoveDuplication [(''root'', JBool True)] currentTypescriptConfig False None
       = Inr ([(''root'', JBool True), (''plugins'', JArr [])], currentTypescriptConfig)"
proof -
  let ?json = "[(''root'', JBool True)]"
  have absent: "get_prop ?json ''rules'' = None" "get_prop ?json ''parserOptions'' = None"
    "get_prop ?json ''overrides'' = None" "get_prop ?json ''plugins'' = None"
    by (simp_all add: get_prop_def)
  have rules: "updateObjPropAndRemoveDuplication ?json currentTypescriptConfig ''rules'' False
       = Inr ([(''root'', JBool True), (''rules'', JObj [])], currentTypescriptConfig)"
    by (simp add: reducer_defs currentTypescriptConfig_def)
  have parserOptions: "updateParserOptionsAndRemoveDuplication ?json currentTypescriptConfig
       = Inr ([(''root'', JBool True), (''parserOptions'', JObj [])], currentTypescriptConfig)"
    by (simp add: reducer_defs currentTypescriptConfig_def)
  have reference: "orAssign ''plugins'' (JArr []) currentTypescriptConfig = currentTypescriptConfig"
    by (simp add: reducer_defs currentTypescriptConfig_def)
  from absent_field_after_reducer [of ?json "''rules''" currentTypescriptConfig False
      "[(''root'', JBool True), (''rules'', JObj [])]" currentTypescriptConfig
      "[(''root'', JBool True), (''parserOptions'', JObj [])]" currentTypescriptConfig]
    absent rules parserOptions reference
  show ?thesis by simp
qed

theorem absent_field_created_counterexample:
  "get_prop [] ''rules'' = None
   \<and> updateObjPropAndRemoveDuplication [] [] ''rules'' False
       = Inr ([(''rules'', JObj [])], [(''rules'', JObj [])])
   \<and> get_prop [(''rules'', JObj [])] ''rules'' = Some (JObj [])
   \<and> get_prop [] ''parserOptions'' = None
   \<and> updateParserOptionsAndRemoveDuplication [] []
       = Inr ([(''parserOptions'', JObj [])], [(''parserOptions'', JObj [])])
   \<and> get_prop [(''parserOptions'', JObj [])] ''parserOptions'' = Some (JObj [])"
  by (simp add: reducer_defs)

text \<open>
  Claim C5. \<^verbatim>\<open>updateParserOptionsAndRemoveDuplication\<close> compares with \<^verbatim>\<open>===\<close>, so it
  keeps a nested \<^verbatim>\<open>parserOptions\<close> value that is structurally equal to the reference's
  value under the same key, where \<^verbatim>\<open>updateObjPropAndRemoveDuplication\<close>, which compares
  with \<^verbatim>\<open>assert.deepStrictEqual\<close>, removes the same value from \<^verbatim>\<open>settings\<close>.
\<close>

theorem parserOptions_nested_value_kept:
  "deepStrictEqual (JObj [(''jsx'', JBool True)]) (JObj [(''jsx'', JBool True)])
   \<and> updateParserOptionsAndRemoveDuplication
       [(''parserOptions'', JObj [(''ecmaFeatures'', JObj [(''jsx'', JBool True)])])]
       [(''parserOptions'', JObj [(''ecmaFeatures'', JObj [(''jsx'', JBool True)])])]
     = Inr ([(''parserOptions'', JObj [(''ecmaFeatures'', JObj [(''jsx'', JBool True)])])],
            [(''parserOptions'', JObj [(''ecmaFeatures'', JObj [(''jsx'', JBool True)])])])
   \<and> updateObjPropAndRemoveDuplication
       [(''settings'', JObj [(''ecmaFeatures'', JObj [(''jsx'', JBool True)])])]
       [(''settings'', JObj [(''ecmaFeatures'', JObj [(''jsx'', JBool True)])])]
       ''settings'' False
     = Inr ([(''settings'', JObj [])],
            [(''settings'', JObj [(''ecmaFeatures'', JObj [(''jsx'', JBool True)])])])"
  by (simp add: reducer_defs)

lemma ecmaVersion_after_update:
  assumes "updateParserOptionsAndRemoveDuplication json reference = Inr (json', reference')"
    and "get_prop json ''parserOptions'' = Some (JObj opts)"
    and "distinct (map fst opts)"
    and "map_of opts ''ecmaVersion'' = Some v"
  shows "\<exists>n m. toNumber (Some v) = Inr n \<and> toNumber (ecmaVersionOf reference) = Inr m
           \<and> (ecmaVersionOf json' = None) =
               (numEquals n (Fin 2018) \<or> numEquals n m
                \<or> strictEqualsOpt (Some v) (ecmaVersionOf reference))
           \<and> (ecmaVersionOf json' = None \<or> ecmaVersionOf json' = Some v)"
proof -
  from assms(1) obtain own theirs b where
    own: "orValue ''parserOptions'' (JObj []) json = JObj own" and
    theirs: "orValue ''parserOptions'' (JObj []) reference = JObj theirs" and
    b: "ecmaVersionIsRedundant (map_of own ''ecmaVersion'') (map_of theirs ''ecmaVersion'') = Inr b" and
    json': "json' = set_prop ''parserOptions''
               (JObj (removeStrictlyEqual (if b then delete_prop ''ecmaVersion'' own else own) theirs
                        (if b then delete_prop ''ecmaVersion'' own else own))) json"
    by (rule updateParserOptions_Inr)
  have "own = opts" using own assms(2) by (simp add: orValue_def)
  then have distinct: "distinct (map fst own)" and v: "map_of own ''ecmaVersion'' = Some v"
    using assms(3,4) by simp_all
  have ref: "ecmaVersionOf reference = map_of theirs ''ecmaVersion''"
    using theirs by (rule ecmaVersionOf_orValue)
  from b obtain n m where
    n: "toNumber (Some v) = Inr n" and m: "toNumber (ecmaVersionOf reference) = Inr m" and
    b_eq: "b = (numEquals n (Fin 2018) \<or> numEquals n m)"
    unfolding v ref by (rule ecmaVersionIsRedundant_Inr)
  have after: "ecmaVersionOf json' =
      map_of (removeStrictlyEqual (if b then delete_prop ''ecmaVersion'' own else own) theirs
                (if b then delete_prop ''ecmaVersion'' own else own)) ''ecmaVersion''"
    by (simp add: json' ecmaVersionOf_def get_set_prop)
  have "ecmaVersionOf json' =
          (if b \<or> strictEqualsOpt (Some v) (ecmaVersionOf reference) then None else Some v)"
    unfolding after ref
    by (simp add: entry_gone_after_delete entry_after_strict_loop [OF distinct v])
  then show ?thesis using n m b_eq by auto
qed

lemma coercionModelled_iff: "coercionModelled x = (\<exists>n. toNumber x = Inr n)"
proof (cases x)
  case None
  then show ?thesis by simp
next
  case (Some v)
  then show ?thesis
    by (cases v) (auto simp: StringToNumber_def split: option.splits)
qed

text \<open>
  Claim C7, as the code has it. Take a target whose \<^verbatim>\<open>parserOptions\<close> is an object with
  \<^verbatim>\<open>ecmaVersion\<close> \<open>v\<close>, and a reference whose \<^verbatim>\<open>parserOptions\<close> is an object, falsy
  or missing, where \<open>v\<close> and the reference's ecmaVersion are values on which
  \<^verbatim>\<open>Number\<close> is modelled (\<open>coercionModelled\<close>). Then
  \<^verbatim>\<open>updateParserOptionsAndRemoveDuplication\<close> returns, and the key is gone afterwards
  exactly when \<^verbatim>\<open>Number(v)\<close> is 2018, or \<^verbatim>\<open>Number(v)\<close> is equal to \<^verbatim>\<open>Number\<close> of the
  reference's ecmaVersion (\<open>NaN\<close> being equal to nothing), or \<open>v\<close> is strictly equal to
  the reference's ecmaVersion, which is what the loop after the special case removes. A
  key that stays keeps its value.
\<close>

theorem ecmaVersion_deleted_when:
  assumes "get_prop json ''parserOptions'' = Some (JObj opts)"
    and "distinct (map fst opts)"
    and "map_of opts ''ecmaVersion'' = Some v"
    and "coercionModelled (Some v)"
    and "orValue ''parserOptions'' (JObj []) reference = JObj theirs"
    and "coercionModelled (ecmaVersionOf reference)"
  shows "\<exists>json' n m.
           updateParserOptionsAndRemoveDuplication json reference
             = Inr (json', orAssign ''parserOptions'' (JObj []) reference)
           \<and> toNumber (Some v) = Inr n \<and> toNumber (ecmaVersionOf reference) = Inr m
           \<and> (ecmaVersionOf json' = None) =
               (numEquals n (Fin 2018) \<or> numEquals n m
                \<or> strictEqualsOpt (Some v) (ecmaVersionOf reference))
           \<and> (ecmaVersionOf json' = None \<or> ecmaVersionOf json' = Some v)"
proof -
  have own: "orValue ''parserOptions'' (JObj []) json = JObj opts"
    using assms(1) by (simp add: orValue_def)
  have ref: "ecmaVersionOf reference = map_of theirs ''ecmaVersion''"
    using assms(5) by (rule ecmaVersionOf_orValue)
  from assms(4) obtain n where n: "toNumber (Some v) = Inr n"
    unfolding coercionModelled_iff by blast
  from assms(6) obtain m where m: "toNumber (ecmaVersionOf reference) = Inr m"
    unfolding coercionModelled_iff by blast
  have "ecmaVersionIsRedundant (map_of opts ''ecmaVersion'') (map_of theirs ''ecmaVersion'')
          = Inr (numEquals n (Fin 2018) \<or> numEquals n m)"
    using n m by (simp add: ecmaVersionIsRedundant_def assms(3) ref)
  from updateParserOptions_objects [OF own assms(5) this]
  obtain json' where
    run: "updateParserOptionsAndRemoveDuplication json reference
            = Inr (json', orAssign ''parserOptions'' (JObj []) reference)"
    by blast
  from ecmaVersion_after_update [OF run assms(1,2,3)] obtain n' m' where
    "toNumber (Some v) = Inr n'" "toNumber (ecmaVersionOf reference) = Inr m'"
    "(ecmaVersionOf json' = None) =
       (numEquals n' (Fin 2018) \<or> numEquals n' m'
        \<or> strictEqualsOpt (Some v) (ecmaVersionOf reference))"
    "ecmaVersionOf json' = None \<or> ecmaVersionOf json' = Some v"
    by (elim exE conjE)
  with run show ?thesis
    by (intro exI conjI)
qed

theorem ecmaVersion_deleted_when_witness:
  "updateParserOptionsAndRemoveDuplication
     [(''parserOptions'', JObj [(''ecmaVersion'', JStr ''2018''), (''project'', JStr ''./tsconfig.json'')])]
     currentTypescriptConfig
   = Inr ([(''parserOptions'', JObj [(''project'', JStr ''./tsconfig.json'')])], currentTypescriptConfig)
   \<and> coercionModelled (Some (JStr ''2018''))
   \<and> toNumber (Some (JStr ''2018'')) = Inr (Fin 2018)
   \<and> ecmaVersionOf [(''parserOptions'', JObj [(''project'', JStr ''./tsconfig.json'')])] = None
   \<and> updateParserOptionsAndRemoveDuplication
     [(''parserOptions'', JObj [(''ecmaVersion'', JNum 2017)])] currentTypescriptConfig
   = Inr ([(''parserOptions'', JObj [(''ecmaVersion'', JNum 2017)])], currentTypescriptConfig)
   \<and> ecmaVersionOf [(''parserOptions'', JObj [(''ecmaVersion'', JNum 2017)])] = Some (JNum 2017)"
proof -
  let ?json = "[(''parserOptions'',
                 JObj [(''ecmaVersion'', JStr ''2018''), (''project'', JStr ''./tsconfig.json'')])]"
  let ?json' = "[(''parserOptions'', JObj [(''project'', JStr ''./tsconfig.json'')])]"
  let ?other = "[(''parserOptions'', JObj [(''ecmaVersion'', JNum 2017)])]"
  let ?theirs = "[(''ecmaVersion'', JNum 2020), (''sourceType'', JStr ''module'')]"
  have run: "updateParserOptionsAndRemoveDuplication ?json currentTypescriptConfig
               = Inr (?json', currentTypescriptConfig)"
    by (simp add: reducer_defs currentTypescriptConfig_def)
  have kept: "updateParserOptionsAndRemoveDuplication ?other currentTypescriptConfig
               = Inr (?other, currentTypescriptConfig)"
    by (simp add: reducer_defs currentTypescriptConfig_def)
  have reads:
    "get_prop ?json ''parserOptions''
       = Some (JObj [(''ecmaVersion'', JStr ''2018''), (''project'', JStr ''./tsconfig.json'')])"
    "get_prop ?other ''parserOptions'' = Some (JObj [(''ecmaVersion'', JNum 2017)])"
    by (simp_all add: get_prop_def)
  have reference:
    "orValue ''parserOptions'' (JObj []) currentTypescriptConfig = JObj ?theirs"
    "ecmaVersionOf currentTypescriptConfig = Some (JNum 2020)"
    "orAssign ''parserOptions'' (JObj []) currentTypescriptConfig = currentTypescriptConfig"
    by (simp_all add: reducer_defs ecmaVersionOf_def currentTypescriptConfig_def)
  have modelled:
    "coercionModelled (Some (JStr ''2018''))" "coercionModelled (Some (JNum 2017))"
    "coercionModelled (ecmaVersionOf currentTypescriptConfig)"
    "toNumber (Some (JStr ''2018'')) = Inr (Fin 2018)"
    by (simp_all add: reference(2) reducer_defs)
  have first: "ecmaVersionOf ?json' = None" if
    "\<exists>json' n m. updateParserOptionsAndRemoveDuplication ?json currentTypescriptConfig
         = Inr (json', orAssign ''parserOptions'' (JObj []) currentTypescriptConfig)
       \<and> toNumber (Some (JStr ''2018'')) = Inr n
       \<and> toNumber (ecmaVersionOf currentTypescriptConfig) = Inr m
       \<and> (ecmaVersionOf json' = None) =
           (numEquals n (Fin 2018) \<or> numEquals n m
            \<or> strictEqualsOpt (Some (JStr ''2018'')) (ecmaVersionOf currentTypescriptConfig))
       \<and> (ecmaVersionOf json' = None \<or> ecmaVersionOf json' = Some (JStr ''2018''))"
    using that unfolding run reference(3) modelled(4) by auto
  have second: "ecmaVersionOf ?other = Some (JNum 2017)" if
    "\<exists>json' n m. updateParserOptionsAndRemoveDuplication ?other currentTypescriptConfig
         = Inr (json', orAssign ''parserOptions'' (JObj []) currentTypescriptConfig)
       \<and> toNumber (Some (JNum 2017)) = Inr n
       \<and> toNumber (ecmaVersionOf currentTypescriptConfig) = Inr m
       \<and> (ecmaVersionOf json' = None) =
           (numEquals n (Fin 2018) \<or> numEquals n m
            \<or> strictEqualsOpt (Some (JNum 2017)) (ecmaVersionOf currentTypescriptConfig))
       \<and> (ecmaVersionOf json' = None \<or> ecmaVersionOf json' = Some (JNum 2017))"
    using that unfolding kept reference(2,3) by auto
  have "distinct (map fst [(''ecmaVersion'', JStr ''2018''), (''project'', JStr ''./tsconfig.json'')])"
    "map_of [(''ecmaVersion'', JStr ''2018''), (''project'', JStr ''./tsconfig.json'')] ''ecmaVersion''
       = Some (JStr ''2018'')"
    "distinct (map fst [(''ecmaVersion'', JNum 2017)])"
    "map_of [(''ecmaVersion'', JNum 2017)] ''ecmaVersion'' = Some (JNum 2017)"
    by simp_all
  note facts = this
  from first [OF ecmaVersion_deleted_when [OF reads(1) facts(1,2) modelled(1) reference(1) modelled(3)]]
    second [OF ecmaVersion_deleted_when [OF reads(2) facts(3,4) modelled(2) reference(1) modelled(3)]]
    run kept modelled
  show ?thesis by simp
qed

theorem ecmaVersion_same_string_counterexample:
  "updateParserOptionsAndRemoveDuplication
     [(''parserOptions'', JObj [(''ecmaVersion'', JStr ''latest'')])]
     [(''parserOptions'', JObj [(''ecmaVersion'', JStr ''latest'')])]
   = Inr ([(''parserOptions'', JObj [])],
          [(''parserOptions'', JObj [(''ecmaVersion'', JStr ''latest'')])])
   \<and> toNumber (Some (JStr ''latest'')) = Inr NaN
   \<and> \<not> numEquals NaN (Fin 2018)
   \<and> \<not> numEquals NaN NaN"
  by (simp add: reducer_defs)

section \<open>The overrides reducer drops every entry\<close>

text \<open>
  Claim C1. When \<^verbatim>\<open>overrides\<close> is a non-empty array in both documents, the reducer
  removes every entry of the target's list, whether or not the entry matches an entry of
  the reference: the list is left empty, or the field is deleted when
  \<open>deleteIfUltimatelyEmpty\<close> is set. In every other case (the field is missing, is not
  an array or is empty on either side) the target is returned as it was. The reference
  is never changed.
\<close>

theorem overrides_all_removed:
  "updateOverridesAndRemoveDuplication json configBeingExtended deleteIfUltimatelyEmpty =
     Inr (if isNonEmptyArray (get_prop json ''overrides'')
             \<and> isNonEmptyArray (get_prop configBeingExtended ''overrides'')
          then (if deleteIfUltimatelyEmpty then delete_prop ''overrides'' json
                else set_prop ''overrides'' (JArr []) json)
          else json,
          configBeingExtended)"
  by (simp add: updateOverridesAndRemoveDuplication_def overridesFilterFn_False)

theorem overrides_all_removed_witness:
  "updateOverridesAndRemoveDuplication
     [(''overrides'',
       JArr [JObj [(''files'', JArr [JStr ''*.tsx'']), (''rules'', JObj [(''x'', JNum 1)])]])]
     [(''overrides'',
       JArr [JObj [(''files'', JArr [JStr ''*.tsx'']), (''rules'', JObj [(''x'', JNum 1)])]])]
     False
   = Inr ([(''overrides'', JArr [])],
          [(''overrides'',
            JArr [JObj [(''files'', JArr [JStr ''*.tsx'']), (''rules'', JObj [(''x'', JNum 1)])]])])"
  using overrides_all_removed [of
     "[(''overrides'',
        JArr [JObj [(''files'', JArr [JStr ''*.tsx'']), (''rules'', JObj [(''x'', JNum 1)])]])]"
     "[(''overrides'',
        JArr [JObj [(''files'', JArr [JStr ''*.tsx'']), (''rules'', JObj [(''x'', JNum 1)])]])]"
     False]
  by (simp add: get_prop_def)

section \<open>What happens to the reference\<close>

lemma onlyNormalizes_orAssign:
  "onlyNormalizes f (orValue f dflt reference) reference (orAssign f dflt reference)"
proof -
  have "orAssign f dflt reference = reference"
    if "get_prop reference f = Some (orValue f dflt reference)"
  proof (cases "get_prop reference f")
    case None
    with that show ?thesis by simp
  next
    case (Some v)
    show ?thesis
    proof (cases "truthy v")
      case True
      then show ?thesis by (simp add: orAssign_def Some)
    next
      case False
      then have "orValue f dflt reference = dflt" by (simp add: orValue_def Some)
      with that have "get_prop reference f = Some dflt" by simp
      then show ?thesis by (simp add: orAssign_def set_prop_same)
    qed
  qed
  then show ?thesis
    by (simp add: onlyNormalizes_def get_orAssign)
qed

text \<open>
  Claim C6, as the code has it. A reducer changes the reference in the one field it
  works on, and only by storing the normal form it compares against: the list form of
  \<^verbatim>\<open>extends\<close>, and the value of \<^verbatim>\<open>f ||= []\<close> or \<^verbatim>\<open>f ||= {}\<close> for \<^verbatim>\<open>plugins\<close>,
  \<^verbatim>\<open>parserOptions\<close> and the field of the keyed-object reducer. The stored value stays
  after the call, and the field is created when the reference did not have it. Every
  other field is as before, a reference that already holds the normal form is returned
  as it was, and the overrides reducer never changes the reference.
\<close>

theorem reference_only_normalized:
  "(updateExtendsAndRemoveDuplication json reference d e = Inr (json1, reference1)
    \<longrightarrow> onlyNormalizes ''extends'' (ensureStringArray (get_prop reference ''extends''))
          reference reference1)
   \<and> (updatePluginsAndRemoveDuplication json reference d p = Inr (json2, reference2)
    \<longrightarrow> onlyNormalizes ''plugins'' (orValue ''plugins'' (JArr []) reference)
          reference reference2)
   \<and> (updateParserOptionsAndRemoveDuplication json reference = Inr (json3, reference3)
    \<longrightarrow> onlyNormalizes ''parserOptions'' (orValue ''parserOptions'' (JObj []) reference)
          reference reference3)
   \<and> (updateObjPropAndRemoveDuplication json reference f d = Inr (json4, reference4)
    \<longrightarrow> onlyNormalizes f (orValue f (JObj []) reference) reference reference4)
   \<and> (updateOverridesAndRemoveDuplication json reference d = Inr (json5, reference5)
    \<longrightarrow> reference5 = reference)"
proof (intro conjI impI)
  assume "updateExtendsAndRemoveDuplication json reference d e = Inr (json1, reference1)"
  then show "onlyNormalizes ''extends'' (ensureStringArray (get_prop reference ''extends''))
               reference reference1"
    by (rule updateExtends_Inr) (simp add: onlyNormalizes_def get_set_prop set_prop_same)
next
  assume "updatePluginsAndRemoveDuplication json reference d p = Inr (json2, reference2)"
  then have "reference2 = orAssign ''plugins'' (JArr []) reference"
    by (rule updatePlugins_Inr)
  then show "onlyNormalizes ''plugins'' (orValue ''plugins'' (JArr []) reference)
               reference reference2"
    by (simp add: onlyNormalizes_orAssign)
next
  assume "updateParserOptionsAndRemoveDuplication json reference = Inr (json3, reference3)"
  then have "reference3 = orAssign ''parserOptions'' (JObj []) reference"
    by (rule updateParserOptions_Inr)
  then show "onlyNormalizes ''parserOptions'' (orValue ''parserOptions'' (JObj []) reference)
               reference reference3"
    by (simp add: onlyNormalizes_orAssign)
next
  assume "updateObjPropAndRemoveDuplication json reference f d = Inr (json4, reference4)"
  then have "reference4 = orAssign f (JObj []) reference"
    by (rule updateObjProp_Inr)
  then show "onlyNormalizes f (orValue f (JObj []) reference) reference reference4"
    by (simp add: onlyNormalizes_orAssign)
next
  assume "updateOverridesAndRemoveDuplication json reference d = Inr (json5, reference5)"
  then show "reference5 = reference"
    by (simp add: updateOverrides_result)
qed

theorem reference_only_normalized_witness:
  "updateExtendsAndRemoveDuplication [(''extends'', JStr ''airbnb'')]
     [(''parser'', JStr ''espree'')] True ''plugin:@nrwl/nx/react''
   = Inr ([(''extends'', JArr [JStr ''plugin:@nrwl/nx/react'', JStr ''airbnb''])],
          [(''parser'', JStr ''espree''), (''extends'', JArr [])])
   \<and> onlyNormalizes ''extends'' (JArr []) [(''parser'', JStr ''espree'')]
         [(''parser'', JStr ''espree''), (''extends'', JArr [])]
   \<and> updatePluginsAndRemoveDuplication [(''extends'', JStr ''airbnb'')]
     [(''parser'', JStr ''espree'')] True None
   = Inr ([(''extends'', JStr ''airbnb'')], [(''parser'', JStr ''espree''), (''plugins'', JArr [])])
   \<and> onlyNormalizes ''plugins'' (JArr []) [(''parser'', JStr ''espree'')]
         [(''parser'', JStr ''espree''), (''plugins'', JArr [])]
   \<and> updateParserOptionsAndRemoveDuplication [(''extends'', JStr ''airbnb'')]
     [(''parser'', JStr ''espree'')]
   = Inr ([(''extends'', JStr ''airbnb''), (''parserOptions'', JObj [])],
          [(''parser'', JStr ''espree''), (''parserOptions'', JObj [])])
   \<and> onlyNormalizes ''parserOptions'' (JObj []) [(''parser'', JStr ''espree'')]
         [(''parser'', JStr ''espree''), (''parserOptions'', JObj [])]
   \<and> updateObjPropAndRemoveDuplication [(''extends'', JStr ''airbnb'')]
     [(''parser'', JStr ''espree'')] ''env'' True
   = Inr ([(''extends'', JStr ''airbnb'')], [(''parser'', JStr ''espree''), (''env'', JObj [])])
   \<and> onlyNormalizes ''env'' (JObj []) [(''parser'', JStr ''espree'')]
         [(''parser'', JStr ''espree''), (''env'', JObj [])]
   \<and> updateOverridesAndRemoveDuplication [(''extends'', JStr ''airbnb'')]
     [(''parser'', JStr ''espree'')] True
   = Inr ([(''extends'', JStr ''airbnb'')], [(''parser'', JStr ''espree'')])"
proof -
  let ?json = "[(''extends'', JStr ''airbnb'')]"
  let ?reference = "[(''parser'', JStr ''espree'')]"
  have runs:
    "updateExtendsAndRemoveDuplication ?json ?reference True ''plugin:@nrwl/nx/react''
       = Inr ([(''extends'', JArr [JStr ''plugin:@nrwl/nx/react'', JStr ''airbnb''])],
              [(''parser'', JStr ''espree''), (''extends'', JArr [])])"
    "updatePluginsAndRemoveDuplication ?json ?reference True None
       = Inr (?json, [(''parser'', JStr ''espree''), (''plugins'', JArr [])])"
    "updateParserOptionsAndRemoveDuplication ?json ?reference
       = Inr ([(''extends'', JStr ''airbnb''), (''parserOptions'', JObj [])],
              [(''parser'', JStr ''espree''), (''parserOptions'', JObj [])])"
    "updateObjPropAndRemoveDuplication ?json ?reference ''env'' True
       = Inr (?json, [(''parser'', JStr ''espree''), (''env'', JObj [])])"
    "updateOverridesAndRemoveDuplication ?json ?reference True = Inr (?json, ?reference)"
    by (simp_all add: reducer_defs)
  have normal:
    "ensureStringArray (get_prop ?reference ''extends'') = JArr []"
    "orValue ''plugins'' (JArr []) ?reference = JArr []"
    "orValue ''parserOptions'' (JObj []) ?reference = JObj []"
    "orValue ''env'' (JObj []) ?reference = JObj []"
    by (simp_all add: get_prop_def orValue_def)
  from reference_only_normalized [of ?json ?reference True "''plugin:@nrwl/nx/react''"
      "[(''extends'', JArr [JStr ''plugin:@nrwl/nx/react'', JStr ''airbnb''])]"
      "[(''parser'', JStr ''espree''), (''extends'', JArr [])]"
      None ?json "[(''parser'', JStr ''espree''), (''plugins'', JArr [])]"
      "[(''extends'', JStr ''airbnb''), (''parserOptions'', JObj [])]"
      "[(''parser'', JStr ''espree''), (''parserOptions'', JObj [])]"
      "''env''" ?json "[(''parser'', JStr ''espree''), (''env'', JObj [])]"
      ?json ?reference] runs normal
  show ?thesis by simp
qed

theorem reference_field_created_counterexample:
  "get_prop [(''parser'', JStr ''espree'')] ''env'' = None
   \<and> updateObjPropAndRemoveDuplication [(''env'', JObj [(''node'', JBool True)])]
       [(''parser'', JStr ''espree'')] ''env'' True
     = Inr ([(''env'', JObj [(''node'', JBool True)])],
            [(''parser'', JStr ''espree''), (''env'', JObj [])])
   \<and> get_prop [(''parser'', JStr ''espree''), (''env'', JObj [])] ''env'' = Some (JObj [])
   \<and> get_prop [(''parser'', JStr ''espree'')] ''extends'' = None
   \<and> updateExtendsAndRemoveDuplication [(''extends'', JStr ''airbnb'')]
       [(''parser'', JStr ''espree'')] True ''plugin:@nrwl/nx/react''
     = Inr ([(''extends'', JArr [JStr ''plugin:@nrwl/nx/react'', JStr ''airbnb''])],
            [(''parser'', JStr ''espree''), (''extends'', JArr [])])
   \<and> get_prop [(''parser'', JStr ''espree''), (''extends'', JArr [])] ''extends'' = Some (JArr [])"
  by (simp add: reducer_defs)

section \<open>The root configuration update\<close>

text \<open>
  Claim C9. The last step of the root update deletes \<^verbatim>\<open>parser\<close> exactly when the
  target's value is \<^verbatim>\<open>===\<close> the reference's: after the whole update the target has no
  \<^verbatim>\<open>parser\<close> in that case, and the \<^verbatim>\<open>parser\<close> it came with in every other case. No
  earlier step touches the field in either document.
\<close>

theorem parser_deleted_iff_same:
  assumes "updateRootESLintConfig json reference = Inr (json', reference')"
  shows "get_prop json' ''parser'' =
           (if strictEqualsOpt (get_prop json ''parser'') (get_prop reference ''parser'')
            then None else get_prop json ''parser'')"
proof -
  from assms obtain json1 reference1 json2 reference2 json3 reference3 json4 reference4 json5
    where
      s1: "updateExtendsAndRemoveDuplication json reference True ''plugin:@nrwl/nx/typescript''
             = Inr (json1, reference1)" and
      s2: "updatePluginsAndRemoveDuplication json1 reference1 True (Some ''@nrwl/nx'')
             = Inr (json2, reference2)" and
      s3: "updateParserOptionsAndRemoveDuplication json2 reference2 = Inr (json3, reference3)" and
      s4: "updateOverridesAndRemoveDuplication json3 reference3 True = Inr (json4, reference4)" and
      s5: "updateObjPropAndRemoveDuplication json4 reference4 ''rules'' False
             = Inr (json5, reference')" and
      last: "json' = deleteParserIfSame json5 reference'"
    by (rule updateRoot_Inr)
  have "get_prop json5 ''parser'' = get_prop json ''parser''"
    using updateExtends_frame(1) [OF s1, of "''parser''"]
      updatePlugins_frame(1) [OF s2, of "''parser''"]
      updateParserOptions_frame(1) [OF s3, of "''parser''"]
      updateOverrides_frame(1) [OF s4, of "''parser''"]
      updateObjProp_frame(1) [OF s5, of "''parser''"]
    by simp
  moreover have "get_prop reference' ''parser'' = get_prop reference ''parser''"
    using updateExtends_frame(2) [OF s1, of "''parser''"]
      updatePlugins_frame(2) [OF s2, of "''parser''"]
      updateParserOptions_frame(2) [OF s3, of "''parser''"]
      updateOverrides_frame(2) [OF s4, of "''parser''"]
      updateObjProp_frame(2) [OF s5, of "''parser''"]
    by simp
  ultimately show ?thesis
    by (simp add: last deleteParserIfSame_def get_delete_prop)
qed

theorem parser_deleted_iff_same_witness:
  "updateRootESLintConfig
     [(''root'', JBool True), (''parser'', JStr ''@typescript-eslint/parser'')]
     currentTypescriptConfig
   = Inr ([(''root'', JBool True), (''extends'', JArr [JStr ''plugin:@nrwl/nx/typescript'']),
           (''plugins'', JArr [JStr ''@nrwl/nx'']), (''parserOptions'', JObj []),
           (''rules'', JObj [])],
          currentTypescriptConfig)
   \<and> get_prop [(''root'', JBool True), (''parser'', JStr ''@typescript-eslint/parser'')] ''parser''
       = get_prop currentTypescriptConfig ''parser''
   \<and> get_prop [(''root'', JBool True), (''extends'', JArr [JStr ''plugin:@nrwl/nx/typescript'']),
           (''plugins'', JArr [JStr ''@nrwl/nx'']), (''parserOptions'', JObj []),
           (''rules'', JObj [])] ''parser'' = None"
proof -
  let ?json = "[(''root'', JBool True), (''parser'', JStr ''@typescript-eslint/parser'')]"
  let ?json' = "[(''root'', JBool True), (''extends'', JArr [JStr ''plugin:@nrwl/nx/typescript'']),
           (''plugins'', JArr [JStr ''@nrwl/nx'']), (''parserOptions'', JObj []),
           (''rules'', JObj [])]"
  have run: "updateRootESLintConfig ?json currentTypescriptConfig
               = Inr (?json', currentTypescriptConfig)"
    by (simp add: root_defs reducer_defs)
  have same: "get_prop ?json ''parser'' = get_prop currentTypescriptConfig ''parser''"
    by (simp add: get_prop_def currentTypescriptConfig_def)
  from parser_deleted_iff_same [OF run] run same
  show ?thesis by (simp add: get_prop_def currentTypescriptConfig_def)
qed

section \<open>Running an update twice\<close>

lemma updateRoot_fixed_point:
  assumes "updateRootESLintConfig json reference = Inr (json', reference')"
  shows "updateRootESLintConfig json' reference' = Inr (json', reference')"
proof -
  from assms obtain json1 reference1 json2 reference2 json3 reference3 json4 reference4 json5
    where
      s1: "updateExtendsAndRemoveDuplication json reference True ''plugin:@nrwl/nx/typescript''
             = Inr (json1, reference1)" and
      s2: "updatePluginsAndRemoveDuplication json1 reference1 True (Some ''@nrwl/nx'')
             = Inr (json2, reference2)" and
      s3: "updateParserOptionsAndRemoveDuplication json2 reference2 = Inr (json3, reference3)" and
      s4: "updateOverridesAndRemoveDuplication json3 reference3 True = Inr (json4, reference4)" and
      s5: "updateObjPropAndRemoveDuplication json4 reference4 ''rules'' False
             = Inr (json5, reference')" and
      last: "json' = deleteParserIfSame json5 reference'"
    by (rule updateRoot_Inr)
  have final: "get_prop json' k = get_prop json5 k" if "k \<noteq> ''parser''" for k
    using that by (simp add: last deleteParserIfSame_def get_delete_prop)
  have r4: "reference4 = reference3"
    using s4 by (simp add: updateOverrides_result)
  have e1: "updateExtendsAndRemoveDuplication json' reference' True ''plugin:@nrwl/nx/typescript''
              = Inr (json', reference')"
  proof (rule updateExtends_stable [OF s1])
    show "get_prop json' ''extends'' = get_prop json1 ''extends''"
      using updatePlugins_frame(1) [OF s2, of "''extends''"]
        updateParserOptions_frame(1) [OF s3, of "''extends''"]
        updateOverrides_frame(1) [OF s4, of "''extends''"]
        updateObjProp_frame(1) [OF s5, of "''extends''"]
      by (simp add: final)
    show "get_prop reference' ''extends'' = get_prop reference1 ''extends''"
      using updatePlugins_frame(2) [OF s2, of "''extends''"]
        updateParserOptions_frame(2) [OF s3, of "''extends''"]
        updateObjProp_frame(2) [OF s5, of "''extends''"]
      by (simp add: r4)
  qed
  have e2: "updatePluginsAndRemoveDuplication json' reference' True (Some ''@nrwl/nx'')
              = Inr (json', reference')"
  proof (rule updatePlugins_stable [OF s2])
    show "get_prop json' ''plugins'' = get_prop json2 ''plugins''"
      using updateParserOptions_frame(1) [OF s3, of "''plugins''"]
        updateOverrides_frame(1) [OF s4, of "''plugins''"]
        updateObjProp_frame(1) [OF s5, of "''plugins''"]
      by (simp add: final)
    show "get_prop reference' ''plugins'' = get_prop reference2 ''plugins''"
      using updateParserOptions_frame(2) [OF s3, of "''plugins''"]
        updateObjProp_frame(2) [OF s5, of "''plugins''"]
      by (simp add: r4)
  qed
  have e3: "updateParserOptionsAndRemoveDuplication json' reference' = Inr (json', reference')"
  proof (rule updateParserOptions_stable [OF s3])
    show "get_prop json' ''parserOptions'' = get_prop json3 ''parserOptions''"
      using updateOverrides_frame(1) [OF s4, of "''parserOptions''"]
        updateObjProp_frame(1) [OF s5, of "''parserOptions''"]
      by (simp add: final)
    show "get_prop reference' ''parserOptions'' = get_prop reference3 ''parserOptions''"
      using updateObjProp_frame(2) [OF s5, of "''parserOptions''"]
      by (simp add: r4)
  qed
  have e4: "updateOverridesAndRemoveDuplication json' reference' True = Inr (json', reference')"
  proof (rule updateOverrides_stable [OF s4])
    show "get_prop json' ''overrides'' = get_prop json4 ''overrides''"
      using updateObjProp_frame(1) [OF s5, of "''overrides''"]
      by (simp add: final)
    show "get_prop reference' ''overrides'' = get_prop reference4 ''overrides''"
      using updateObjProp_frame(2) [OF s5, of "''overrides''"]
      by simp
  qed
  have e5: "updateObjPropAndRemoveDuplication json' reference' ''rules'' False
              = Inr (json', reference')"
    by (rule updateObjProp_stable [OF s5]) (simp_all add: final)
  have "deleteParserIfSame json' reference' = json'"
    by (simp add: last deleteParserIfSame_def get_delete_prop delete_prop_absent
        split: option.splits)
  then show ?thesis
    using updateRoot_steps [OF e1 e2 e3 e4 e5] by simp
qed

lemma updateReact_steps:
  "hasReactPlugin (get_prop json ''plugins'') = Inr True \<Longrightarrow>
   updateExtendsAndRemoveDuplication json reference True ''plugin:@nrwl/nx/react''
     = Inr (json1, reference1) \<Longrightarrow>
   updatePluginsAndRemoveDuplication json1 reference1 True None = Inr (json2, reference2) \<Longrightarrow>
   updateObjPropAndRemoveDuplication json2 reference2 ''rules'' False = Inr (json3, reference3) \<Longrightarrow>
   updateObjPropAndRemoveDuplication json3 reference3 ''env'' True = Inr (json4, reference4) \<Longrightarrow>
   updateObjPropAndRemoveDuplication json4 reference4 ''settings'' True = Inr (json5, reference5) \<Longrightarrow>
   updateReactESLintConfig json reference = Inr (json5, reference5)"
  by (simp add: updateReactESLintConfig_def andThen_def)

lemma updateReact_skipped:
  "hasReactPlugin (get_prop json ''plugins'') = Inr False \<Longrightarrow>
   updateReactESLintConfig json reference = Inr (json, reference)"
  by (simp add: updateReactESLintConfig_def andThen_def)

lemma updateReact_Inr:
  assumes "updateReactESLintConfig json reference = Inr (json', reference')"
  obtains
    (skipped) "hasReactPlugin (get_prop json ''plugins'') = Inr False"
      "json' = json" "reference' = reference"
  | (updated) json1 reference1 json2 reference2 json3 reference3 json4 reference4 where
      "hasReactPlugin (get_prop json ''plugins'') = Inr True"
      "updateExtendsAndRemoveDuplication json reference True ''plugin:@nrwl/nx/react''
         = Inr (json1, reference1)"
      "updatePluginsAndRemoveDuplication json1 reference1 True None = Inr (json2, reference2)"
      "updateObjPropAndRemoveDuplication json2 reference2 ''rules'' False
         = Inr (json3, reference3)"
      "updateObjPropAndRemoveDuplication json3 reference3 ''env'' True = Inr (json4, reference4)"
      "updateObjPropAndRemoveDuplication json4 reference4 ''settings'' True
         = Inr (json', reference')"
  using assms
  by (auto simp: updateReactESLintConfig_def andThen_def split: sum.splits prod.splits if_splits)

lemma hasReactPlugin_total_on_lists:
  "v = None \<or> (\<exists>xs. v = Some (JArr xs)) \<Longrightarrow> \<exists>b. hasReactPlugin v = Inr b"
  by auto

lemma updateReact_fixed_point:
  assumes "updateReactESLintConfig json reference = Inr (json', reference')"
  shows "updateReactESLintConfig json' reference' = Inr (json', reference')"
  using assms
proof (cases rule: updateReact_Inr)
  case skipped
  then show ?thesis by (simp add: updateReact_skipped)
next
  case (updated json1 reference1 json2 reference2 json3 reference3 json4 reference4)
  note s1 = updated(2) and s2 = updated(3) and s3 = updated(4) and s4 = updated(5)
    and s5 = updated(6)
  have plugins: "get_prop json' ''plugins'' = get_prop json2 ''plugins''"
    using updateObjProp_frame(1) [OF s3, of "''plugins''"]
      updateObjProp_frame(1) [OF s4, of "''plugins''"]
      updateObjProp_frame(1) [OF s5, of "''plugins''"]
    by simp
  have "get_prop json2 ''plugins'' = None \<or> (\<exists>xs. get_prop json2 ''plugins'' = Some (JArr xs))"
    using s2 by (rule updatePlugins_Inr) (simp add: get_storeList)
  then obtain b where b: "hasReactPlugin (get_prop json' ''plugins'') = Inr b"
    unfolding plugins [symmetric] using hasReactPlugin_total_on_lists by blast
  show ?thesis
  proof (cases b)
    case False
    with b show ?thesis by (simp add: updateReact_skipped)
  next
    case True
    have e1: "updateExtendsAndRemoveDuplication json' reference' True ''plugin:@nrwl/nx/react''
                = Inr (json', reference')"
    proof (rule updateExtends_stable [OF s1])
      show "get_prop json' ''extends'' = get_prop json1 ''extends''"
        using updatePlugins_frame(1) [OF s2, of "''extends''"]
          updateObjProp_frame(1) [OF s3, of "''extends''"]
          updateObjProp_frame(1) [OF s4, of "''extends''"]
          updateObjProp_frame(1) [OF s5, of "''extends''"]
        by simp
      show "get_prop reference' ''extends'' = get_prop reference1 ''extends''"
        using updatePlugins_frame(2) [OF s2, of "''extends''"]
          updateObjProp_frame(2) [OF s3, of "''extends''"]
          updateObjProp_frame(2) [OF s4, of "''extends''"]
          updateObjProp_frame(2) [OF s5, of "''extends''"]
        by simp
    qed
    have e2: "updatePluginsAndRemoveDuplication json' reference' True None
                = Inr (json', reference')"
    proof (rule updatePlugins_stable [OF s2])
      show "get_prop json' ''plugins'' = get_prop json2 ''plugins''" by (rule plugins)
      show "get_prop reference' ''plugins'' = get_prop reference2 ''plugins''"
        using updateObjProp_frame(2) [OF s3, of "''plugins''"]
          updateObjProp_frame(2) [OF s4, of "''plugins''"]
          updateObjProp_frame(2) [OF s5, of "''plugins''"]
        by simp
    qed
    have e3: "updateObjPropAndRemoveDuplication json' reference' ''rules'' False
                = Inr (json', reference')"
    proof (rule updateObjProp_stable [OF s3])
      show "get_prop json' ''rules'' = get_prop json3 ''rules''"
        using updateObjProp_frame(1) [OF s4, of "''rules''"]
          updateObjProp_frame(1) [OF s5, of "''rules''"]
        by simp
      show "get_prop reference' ''rules'' = get_prop reference3 ''rules''"
        using updateObjProp_frame(2) [OF s4, of "''rules''"]
          updateObjProp_frame(2) [OF s5, of "''rules''"]
        by simp
    qed
    have e4: "updateObjPropAndRemoveDuplication json' reference' ''env'' True
                = Inr (json', reference')"
    proof (rule updateObjProp_stable [OF s4])
      show "get_prop json' ''env'' = get_prop json4 ''env''"
        using updateObjProp_frame(1) [OF s5, of "''env''"] by simp
      show "get_prop reference' ''env'' = get_prop reference4 ''env''"
        using updateObjProp_frame(2) [OF s5, of "''env''"] by simp
    qed
    have e5: "updateObjPropAndRemoveDuplication json' reference' ''settings'' True
                = Inr (json', reference')"
      by (rule updateObjProp_stable [OF s5]) simp_all
    from b True have "hasReactPlugin (get_prop json' ''plugins'') = Inr True" by simp
    then show ?thesis using e1 e2 e3 e4 e5 by (rule updateReact_steps)
  qed
qed

text \<open>
  Claim C2. Running an update on the documents it has just returned gives the same two
  documents again: the target is a fixed point, and so is the reference as the first run
  left it. This holds for the root update and for the update of a React project, against
  every reference.
\<close>

theorem update_idempotent:
  "(updateRootESLintConfig json reference = Inr (json', reference')
    \<longrightarrow> updateRootESLintConfig json' reference' = Inr (json', reference'))
   \<and> (updateReactESLintConfig project reactReference = Inr (project', reactReference')
    \<longrightarrow> updateReactESLintConfig project' reactReference' = Inr (project', reactReference'))"
  by (simp add: updateRoot_fixed_point updateReact_fixed_point)

theorem update_idempotent_witness:
  "updateRootESLintConfig
     [(''extends'', JArr [JStr ''eslint:recommended'', JStr ''airbnb'']),
      (''parser'', JStr ''babel-eslint''),
      (''parserOptions'',
         JObj [(''ecmaVersion'', JNum 2018), (''sourceType'', JStr ''module''),
               (''project'', JStr ''./tsconfig.json'')]),
      (''rules'',
         JObj [(''@typescript-eslint/explicit-member-accessibility'', JStr ''off''),
               (''semi'', JStr ''error'')]),
      (''overrides'', JArr [JObj [(''files'', JArr [JStr ''*.tsx''])]])]
     currentTypescriptConfig
   = Inr ([(''extends'', JArr [JStr ''plugin:@nrwl/nx/typescript'', JStr ''airbnb'']),
           (''parser'', JStr ''babel-eslint''),
           (''parserOptions'', JObj [(''project'', JStr ''./tsconfig.json'')]),
           (''rules'', JObj [(''semi'', JStr ''error'')]),
           (''plugins'', JArr [JStr ''@nrwl/nx''])],
          currentTypescriptConfig)
   \<and> updateRootESLintConfig
     [(''extends'', JArr [JStr ''plugin:@nrwl/nx/typescript'', JStr ''airbnb'']),
      (''parser'', JStr ''babel-eslint''),
      (''parserOptions'', JObj [(''project'', JStr ''./tsconfig.json'')]),
      (''rules'', JObj [(''semi'', JStr ''error'')]),
      (''plugins'', JArr [JStr ''@nrwl/nx''])]
     currentTypescriptConfig
   = Inr ([(''extends'', JArr [JStr ''plugin:@nrwl/nx/typescript'', JStr ''airbnb'']),
           (''parser'', JStr ''babel-eslint''),
           (''parserOptions'', JObj [(''project'', JStr ''./tsconfig.json'')]),
           (''rules'', JObj [(''semi'', JStr ''error'')]),
           (''plugins'', JArr [JStr ''@nrwl/nx''])],
          currentTypescriptConfig)
   \<and> updateReactESLintConfig
     [(''plugins'', JArr [JStr ''react'', JStr ''jsx-a11y'', JStr ''sonarjs'']),
      (''env'', JObj [(''browser'', JBool True)]),
      (''rules'', JObj [(''no-eval'', JStr ''warn''), (''semi'', JStr ''error'')])]
     [(''rules'', JObj [(''no-eval'', JStr ''warn'')]),
      (''env'', JObj [(''browser'', JBool True), (''node'', JBool True)]),
      (''settings'', JObj [(''react'', JObj [(''version'', JStr ''detect'')])]),
      (''plugins'',
         JArr [JStr ''import'', JStr ''jsx-a11y'', JStr ''react'', JStr ''react-hooks''])]
   = Inr ([(''plugins'', JArr [JStr ''sonarjs'']),
      (''rules'', JObj [(''semi'', JStr ''error'')]),
      (''extends'', JArr [JStr ''plugin:@nrwl/nx/react''])],
          [(''rules'', JObj [(''no-eval'', JStr ''warn'')]),
      (''env'', JObj [(''browser'', JBool True), (''node'', JBool True)]),
      (''settings'', JObj [(''react'', JObj [(''version'', JStr ''detect'')])]),
      (''plugins'',
         JArr [JStr ''import'', JStr ''jsx-a11y'', JStr ''react'', JStr ''react-hooks'']),
      (''extends'', JArr [])])
   \<and> updateReactESLintConfig
     [(''plugins'', JArr [JStr ''sonarjs'']),
      (''rules'', JObj [(''semi'', JStr ''error'')]),
      (''extends'', JArr [JStr ''plugin:@nrwl/nx/react''])]
     [(''rules'', JObj [(''no-eval'', JStr ''warn'')]),
      (''env'', JObj [(''browser'', JBool True), (''node'', JBool True)]),
      (''settings'', JObj [(''react'', JObj [(''version'', JStr ''detect'')])]),
      (''plugins'',
         JArr [JStr ''import'', JStr ''jsx-a11y'', JStr ''react'', JStr ''react-hooks'']),
      (''extends'', JArr [])]
   = Inr ([(''plugins'', JArr [JStr ''sonarjs'']),
      (''rules'', JObj [(''semi'', JStr ''error'')]),
      (''extends'', JArr [JStr ''plugin:@nrwl/nx/react''])],
          [(''rules'', JObj [(''no-eval'', JStr ''warn'')]),
      (''env'', JObj [(''browser'', JBool True), (''node'', JBool True)]),
      (''settings'', JObj [(''react'', JObj [(''version'', JStr ''detect'')])]),
      (''plugins'',
         JArr [JStr ''import'', JStr ''jsx-a11y'', JStr ''react'', JStr ''react-hooks'']),
      (''extends'', JArr [])])"
proof -
  have run: "updateRootESLintConfig
     [(''extends'', JArr [JStr ''eslint:recommended'', JStr ''airbnb'']),
      (''parser'', JStr ''babel-eslint''),
      (''parserOptions'',
         JObj [(''ecmaVersion'', JNum 2018), (''sourceType'', JStr ''module''),
               (''project'', JStr ''./tsconfig.json'')]),
      (''rules'',
         JObj [(''@typescript-eslint/explicit-member-accessibility'', JStr ''off''),
               (''semi'', JStr ''error'')]),
      (''overrides'', JArr [JObj [(''files'', JArr [JStr ''*.tsx''])]])]
     currentTypescriptConfig
   = Inr ([(''extends'', JArr [JStr ''plugin:@nrwl/nx/typescript'', JStr ''airbnb'']),
           (''parser'', JStr ''babel-eslint''),
           (''parserOptions'', JObj [(''project'', JStr ''./tsconfig.json'')]),
           (''rules'', JObj [(''semi'', JStr ''error'')]),
           (''plugins'', JArr [JStr ''@nrwl/nx''])],
          currentTypescriptConfig)"
    by (simp add: root_defs reducer_defs)
  have react: "updateReactESLintConfig
     [(''plugins'', JArr [JStr ''react'', JStr ''jsx-a11y'', JStr ''sonarjs'']),
      (''env'', JObj [(''browser'', JBool True)]),
      (''rules'', JObj [(''no-eval'', JStr ''warn''), (''semi'', JStr ''error'')])]
     [(''rules'', JObj [(''no-eval'', JStr ''warn'')]),
      (''env'', JObj [(''browser'', JBool True), (''node'', JBool True)]),
      (''settings'', JObj [(''react'', JObj [(''version'', JStr ''detect'')])]),
      (''plugins'',
         JArr [JStr ''import'', JStr ''jsx-a11y'', JStr ''react'', JStr ''react-hooks''])]
   = Inr ([(''plugins'', JArr [JStr ''sonarjs'']),
      (''rules'', JObj [(''semi'', JStr ''error'')]),
      (''extends'', JArr [JStr ''plugin:@nrwl/nx/react''])],
          [(''rules'', JObj [(''no-eval'', JStr ''warn'')]),
      (''env'', JObj [(''browser'', JBool True), (''node'', JBool True)]),
      (''settings'', JObj [(''react'', JObj [(''version'', JStr ''detect'')])]),
      (''plugins'',
         JArr [JStr ''import'', JStr ''jsx-a11y'', JStr ''react'', JStr ''react-hooks'']),
      (''extends'', JArr [])])"
    by (simp add: root_defs reducer_defs)
  from update_idempotent [of
      "[(''extends'', JArr [JStr ''eslint:recommended'', JStr ''airbnb'']),
        (''parser'', JStr ''babel-eslint''),
        (''parserOptions'',
           JObj [(''ecmaVersion'', JNum 2018), (''sourceType'', JStr ''module''),
                 (''project'', JStr ''./tsconfig.json'')]),
        (''rules'',
           JObj [(''@typescript-eslint/explicit-member-accessibility'', JStr ''off''),
                 (''semi'', JStr ''error'')]),
        (''overrides'', JArr [JObj [(''files'', JArr [JStr ''*.tsx''])]])]"
      currentTypescriptConfig
      "[(''extends'', JArr [JStr ''plugin:@nrwl/nx/typescript'', JStr ''airbnb'']),
        (''parser'', JStr ''babel-eslint''),
        (''parserOptions'', JObj [(''project'', JStr ''./tsconfig.json'')]),
        (''rules'', JObj [(''semi'', JStr ''error'')]),
        (''plugins'', JArr [JStr ''@nrwl/nx''])]"
      currentTypescriptConfig
      "[(''plugins'', JArr [JStr ''react'', JStr ''jsx-a11y'', JStr ''sonarjs'']),
      (''env'', JObj [(''browser'', JBool True)]),
      (''rules'', JObj [(''no-eval'', JStr ''warn''), (''semi'', JStr ''error'')])]"
      "[(''rules'', JObj [(''no-eval'', JStr ''warn'')]),
      (''env'', JObj [(''browser'', JBool True), (''node'', JBool True)]),
      (''settings'', JObj [(''react'', JObj [(''version'', JStr ''detect'')])]),
      (''plugins'',
         JArr [JStr ''import'', JStr ''jsx-a11y'', JStr ''react'', JStr ''react-hooks''])]"
      "[(''plugins'', JArr [JStr ''sonarjs'']),
      (''rules'', JObj [(''semi'', JStr ''error'')]),
      (''extends'', JArr [JStr ''plugin:@nrwl/nx/react''])]"
      "[(''rules'', JObj [(''no-eval'', JStr ''warn'')]),
      (''env'', JObj [(''browser'', JBool True), (''node'', JBool True)]),
      (''settings'', JObj [(''react'', JObj [(''version'', JStr ''detect'')])]),
      (''plugins'',
         JArr [JStr ''import'', JStr ''jsx-a11y'', JStr ''react'', JStr ''react-hooks'']),
      (''extends'', JArr [])]"] run react
  show ?thesis by simp
qed

end
